theory Spec2Isabelle
  imports Complex_Main "HOL-Library.Sublist" "HOL-Library.List_Lexorder" "HOL-Library.Char_ord"
    "HOL-Library.Multiset"
begin

section \<open>JavaScript values\<close>

text \<open>
  The application (src/src/App.jsx) keeps its data in plain JavaScript objects that are
  read from and written to localStorage as JSON. The entries it works on are therefore
  arbitrary JSON values: a field may be missing or hold a value of any kind.

  A JavaScript number is a double. Its value is kept exactly: a finite double is a
  rational number, both zeros are \<open>Fin 0\<close>. The program only converts, compares and tests
  numbers for truthiness; it does no arithmetic on the values read from entries.
\<close>

datatype number = NaN | NegInf | Fin rat | PosInf

text \<open>
  An object is the list of its own properties in property order, with distinct keys.
  \<open>undefined\<close> is not a JSON value: a value that may be undefined is a \<open>json option\<close>,
  and \<open>None\<close> is \<open>undefined\<close>. A character of a string stands for one code unit.
\<close>

datatype json =
    JNull
  | JBool bool
  | JNum number
  | JStr string
  | JArr "json list"
  | JObj "(string \<times> json) list"

type_synonym obj = "(string \<times> json) list"

datatype error = TypeError | SyntaxError

text \<open>
  The host functions the program calls and that it does not define. They are parameters
  of the model: a theorem below holds for every host that meets the hypotheses it states.
  \<^item> \<open>StringToNumber\<close>: what \<open>Number(s)\<close> gives for a string \<open>s\<close>;
  \<^item> \<open>NumberToString\<close>: what \<open>String(n)\<close> gives for a number \<open>n\<close>;
  \<^item> \<open>localeCompare\<close>: \<open>a.localeCompare(b)\<close> for two strings, negative, zero or positive;
  \<^item> \<open>JSON_parse\<close>: \<open>JSON.parse\<close>, which throws a SyntaxError on a text that is not JSON;
  \<^item> \<open>JSON_stringify\<close>: \<open>JSON.stringify\<close>.
\<close>

record host =
  StringToNumber :: "string \<Rightarrow> number"
  NumberToString :: "number \<Rightarrow> string"
  localeCompare :: "string \<Rightarrow> string \<Rightarrow> int"
  JSON_parse :: "string \<Rightarrow> error + json"
  JSON_stringify :: "json \<Rightarrow> string"

text \<open>Truthiness (ToBoolean): what \<open>!x\<close>, \<open>x && y\<close>, \<open>x || y\<close> and \<open>if (x)\<close> test.\<close>

definition truthy_num :: "number \<Rightarrow> bool" where
  "truthy_num n = (n \<noteq> NaN \<and> n \<noteq> Fin 0)"

fun truthy :: "json option \<Rightarrow> bool" where
  "truthy None = False"
| "truthy (Some JNull) = False"
| "truthy (Some (JBool b)) = b"
| "truthy (Some (JNum n)) = truthy_num n"
| "truthy (Some (JStr s)) = (s \<noteq> [])"
| "truthy (Some (JArr xs)) = True"
| "truthy (Some (JObj kvs)) = True"

text \<open>\<open>a < b\<close> on numbers: false as soon as one side is NaN.\<close>

fun lt :: "number \<Rightarrow> number \<Rightarrow> bool" where
  "lt NaN b = False"
| "lt a NaN = False"
| "lt PosInf b = False"
| "lt a NegInf = False"
| "lt NegInf b = True"
| "lt a PosInf = True"
| "lt (Fin a) (Fin b) = (a < b)"

text \<open>\<open>Array.prototype.join\<close> on strings already converted.\<close>

fun join :: "string \<Rightarrow> string list \<Rightarrow> string" where
  "join sep [] = []"
| "join sep [x] = x"
| "join sep (x # y # ys) = x @ sep @ join sep (y # ys)"

text \<open>
  ToString. A plain object converts through its \<open>toString\<close> property: the one every
  object inherits gives a fixed text, but a \<open>toString\<close> property of the object's own,
  which in JSON data is never a function, leaves no method that gives a primitive value
  (\<open>valueOf\<close> gives the object itself, or is no function either), and the conversion
  throws a TypeError. An array converts by joining its elements with a comma, a null
  element giving the empty string; it throws when the conversion of an element does.
\<close>

fun ToString :: "host \<Rightarrow> json \<Rightarrow> error + string"
  and join_elements :: "host \<Rightarrow> json list \<Rightarrow> error + string list" where
  "ToString h JNull = Inr ''null''"
| "ToString h (JBool b) = Inr (if b then ''true'' else ''false'')"
| "ToString h (JNum n) = Inr (NumberToString h n)"
| "ToString h (JStr s) = Inr s"
| "ToString h (JArr xs) =
    (case join_elements h xs of Inl e \<Rightarrow> Inl e | Inr ss \<Rightarrow> Inr (join '','' ss))"
| "ToString h (JObj kvs) =
    (if ''toString'' \<in> set (map fst kvs) then Inl TypeError else Inr ''[object Object]'')"
| "join_elements h [] = Inr []"
| "join_elements h (x # xs) =
    (case (if x = JNull then Inr [] else ToString h x) of
       Inl e \<Rightarrow> Inl e
     | Inr s \<Rightarrow> (case join_elements h xs of Inl e \<Rightarrow> Inl e | Inr ss \<Rightarrow> Inr (s # ss)))"

text \<open>
  \<open>Number(x)\<close> (ToNumber). Arrays and objects convert through their string, and
  \<open>Number\<close> throws when that conversion does.
\<close>

fun Number :: "host \<Rightarrow> json option \<Rightarrow> error + number" where
  "Number h None = Inr NaN"
| "Number h (Some JNull) = Inr (Fin 0)"
| "Number h (Some (JBool b)) = Inr (if b then Fin 1 else Fin 0)"
| "Number h (Some (JNum n)) = Inr n"
| "Number h (Some (JStr s)) = Inr (StringToNumber h s)"
| "Number h (Some (JArr xs)) =
    (case ToString h (JArr xs) of Inl e \<Rightarrow> Inl e | Inr s \<Rightarrow> Inr (StringToNumber h s))"
| "Number h (Some (JObj kvs)) =
    (case ToString h (JObj kvs) of Inl e \<Rightarrow> Inl e | Inr s \<Rightarrow> Inr (StringToNumber h s))"

text \<open>
  The values these conversions do not throw on: \<open>converts v\<close> says that no object with
  a \<open>toString\<close> property of its own is met when \<open>v\<close> is converted, which is so for
  every string, number, boolean and null; \<open>conv_opt\<close> takes \<open>undefined\<close> in.
\<close>

fun converts :: "json \<Rightarrow> bool" where
  "converts (JObj kvs) = (''toString'' \<notin> set (map fst kvs))"
| "converts (JArr xs) = (\<forall>x \<in> set xs. converts x)"
| "converts v = True"

fun conv_opt :: "json option \<Rightarrow> bool" where
  "conv_opt None = True"
| "conv_opt (Some v) = converts v"

text \<open>
  Reading a property \<open>x.k\<close> of a value that is neither null nor undefined, for the
  property names the program uses (date, pulse, bpSys, bpDia, the symptom names, fatigue,
  meds, am, pm, the medication names, notes): none of them is a property of a string, a
  number, a boolean or an array, or inherited by an object, so only an object that has
  the property itself gives a value. On null and undefined the read throws a TypeError.
\<close>

fun prop_of :: "json \<Rightarrow> string \<Rightarrow> json option" where
  "prop_of (JObj kvs) k = map_of kvs k"
| "prop_of v k = None"

fun get :: "json option \<Rightarrow> string \<Rightarrow> error + json option" where
  "get None k = Inl TypeError"
| "get (Some JNull) k = Inl TypeError"
| "get (Some v) k = Inr (prop_of v k)"

text \<open>Optional chaining \<open>x?.k\<close>: undefined when \<open>x\<close> is null or undefined.\<close>

fun chain :: "json option \<Rightarrow> string \<Rightarrow> json option" where
  "chain None k = None"
| "chain (Some JNull) k = None"
| "chain (Some v) k = prop_of v k"

section \<open>Objects\<close>

text \<open>
  Defining a property, as \<open>[k]: v\<close> in an object literal and each property copied by a
  spread do: a property the object has keeps its place and takes the new value, a new
  one comes last. (A key that is an array index would be ordered among the indices; the
  keys defined here are field names and YYYY-MM-DD dates.)
\<close>

fun obj_set :: "string \<Rightarrow> json \<Rightarrow> obj \<Rightarrow> obj" where
  "obj_set k v [] = [(k, v)]"
| "obj_set k v (kv # kvs) = (if fst kv = k then (k, v) # kvs else kv # obj_set k v kvs)"

text \<open>The decimal digits of an array index, as a property name.\<close>

fun show_nat :: "nat \<Rightarrow> string" where
  "show_nat n =
    (if n < 10 then [''0123456789'' ! n]
     else show_nat (n div 10) @ [''0123456789'' ! (n mod 10)])"

declare show_nat.simps [simp del]


text \<open>
  The own enumerable properties a spread \<open>...x\<close> copies: those of an object, the
  elements of an array and the code units of a string under their indices, nothing for
  the other values.
\<close>

fun spread :: "json option \<Rightarrow> obj" where
  "spread (Some (JObj kvs)) = kvs"
| "spread (Some (JArr xs)) = zip (map show_nat [0..<length xs]) xs"
| "spread (Some (JStr s)) = zip (map show_nat [0..<length s]) (map (\<lambda>c. JStr [c]) s)"
| "spread v = []"

text \<open>\<open>assign src target\<close> defines the properties \<open>src\<close> lists, in order, on \<open>target\<close>.\<close>

definition assign :: "obj \<Rightarrow> obj \<Rightarrow> obj" where
  "assign src target = fold (\<lambda>kv. obj_set (fst kv) (snd kv)) src target"

text \<open>\<open>delete o[k]\<close>.\<close>

definition obj_delete :: "string \<Rightarrow> obj \<Rightarrow> obj" where
  "obj_delete k kvs = filter (\<lambda>kv. fst kv \<noteq> k) kvs"

text \<open>
  The representation invariant of a value: the keys of every object in it are distinct.
\<close>

fun wf :: "json \<Rightarrow> bool" where
  "wf (JObj kvs) = (distinct (map fst kvs) \<and> (\<forall>kv \<in> set kvs. wf (snd kv)))"
| "wf (JArr xs) = (\<forall>x \<in> set xs. wf x)"
| "wf v = True"

text \<open>
  A date as the date input and \<open>fmtDate\<close> give it: YYYY-MM-DD. Such a string is not the
  name of a property an object inherits, so \<open>entries[date]\<close> reads an own property or
  gives undefined.
\<close>

definition is_digit :: "char \<Rightarrow> bool" where
  "is_digit c = (CHR ''0'' \<le> c \<and> c \<le> CHR ''9'')"

definition is_date :: "string \<Rightarrow> bool" where
  "is_date s =
    (length s = 10 \<and> s ! 4 = CHR ''-'' \<and> s ! 7 = CHR ''-'' \<and>
     list_all is_digit (take 4 s @ take 2 (drop 5 s) @ drop 8 s))"

text \<open>Reading along a path with optional chaining: \<open>x?.a?.b\<close>.\<close>

fun path :: "json option \<Rightarrow> string list \<Rightarrow> json option" where
  "path v [] = v"
| "path v (k # ks) = path (chain v k) ks"

text \<open>A property name that is not an array index: it is not a string of digits.\<close>

definition field_name :: "string \<Rightarrow> bool" where
  "field_name k = (\<not> list_all is_digit k)"

fun wf_opt :: "json option \<Rightarrow> bool" where
  "wf_opt None = True"
| "wf_opt (Some v) = wf v"

section \<open>The record store\<close>

definition STORAGE_KEY :: string where
  "STORAGE_KEY = ''afibcare.entries.v1''"

text \<open>\<open>defaultEntry()\<close>; \<open>todayStr\<close> is the module constant computed when the page loads.\<close>

definition defaultEntry :: "string \<Rightarrow> obj" where
  "defaultEntry todayStr =
    [(''date'', JStr todayStr),
     (''pulse'', JStr []),
     (''bpSys'', JStr []),
     (''bpDia'', JStr []),
     (''dizziness'', JBool False),
     (''syncope'', JBool False),
     (''dyspnea'', JBool False),
     (''edema'', JBool False),
     (''bleeding'', JBool False),
     (''fatigue'', JStr ''0''),
     (''meds'', JObj
        [(''am'', JObj [(''multaq'', JBool False), (''edoxaban'', JBool False),
                        (''bisoprolol'', JBool False)]),
         (''pm'', JObj [(''multaq'', JBool False)])]),
     (''notes'', JStr [])]"

text \<open>localStorage: the string stored under each key.\<close>

type_synonym storage = "string \<Rightarrow> string option"

definition typeof :: "json \<Rightarrow> string" where
  "typeof v =
    (case v of
       JNull \<Rightarrow> ''object''
     | JBool b \<Rightarrow> ''boolean''
     | JNum n \<Rightarrow> ''number''
     | JStr s \<Rightarrow> ''string''
     | JArr xs \<Rightarrow> ''object''
     | JObj kvs \<Rightarrow> ''object'')"

text \<open>
  \<open>loadEntries\<close>: \<open>loadEntries_try\<close> is the body of the \<open>try\<close>, in which \<open>JSON.parse\<close>
  may throw; the \<open>catch\<close> turns every error into the empty object.
\<close>

definition loadEntries_try :: "host \<Rightarrow> storage \<Rightarrow> error + json" where
  "loadEntries_try h st =
    (case st STORAGE_KEY of
       None \<Rightarrow> Inr (JObj [])
     | Some raw \<Rightarrow>
         if raw = [] then Inr (JObj [])
         else
           (case JSON_parse h raw of
              Inl e \<Rightarrow> Inl e
            | Inr obj \<Rightarrow>
                Inr (if truthy (Some obj) \<and> typeof obj = ''object'' then obj else JObj [])))"

definition loadEntries :: "host \<Rightarrow> storage \<Rightarrow> error + json" where
  "loadEntries h st =
    (case loadEntries_try h st of Inl e \<Rightarrow> Inr (JObj []) | Inr v \<Rightarrow> Inr v)"

text \<open>
  \<open>saveEntries\<close> overwrites the stored text. (A write the browser refuses, for lack of
  space, is not modelled.)
\<close>

definition saveEntries :: "host \<Rightarrow> obj \<Rightarrow> storage \<Rightarrow> storage" where
  "saveEntries h entries st = st(STORAGE_KEY \<mapsto> JSON_stringify h (JObj entries))"

text \<open>
  The state of the component: the entries, the selected date and the browser's storage.
\<close>

record app =
  entries :: obj
  date :: string
  storage :: storage

text \<open>
  The memoised \<open>entry\<close>: \<open>entries[date] || { ...defaultEntry(), date }\<close>. It is never
  null or undefined.
\<close>

definition entry :: "string \<Rightarrow> obj \<Rightarrow> string \<Rightarrow> json" where
  "entry todayStr es d =
    (let fresh = JObj (obj_set ''date'' (JStr d) (assign (defaultEntry todayStr) []))
     in case map_of es d of
          None \<Rightarrow> fresh
        | Some v \<Rightarrow> if truthy (Some v) then v else fresh)"

text \<open>
  \<open>updateEntry\<close>. \<open>upsert\<close> is the value \<open>nextEntries\<close> it computes from the entries, the
  selected date and the patch: \<open>next = { ...entry, ...patch }\<close>, then
  \<open>{ ...entries, [date]: next }\<close>.
\<close>

definition upsert :: "string \<Rightarrow> obj \<Rightarrow> string \<Rightarrow> obj \<Rightarrow> obj" where
  "upsert todayStr es d patch =
    (let next = assign patch (assign (spread (Some (entry todayStr es d))) [])
     in obj_set d (JObj next) (assign es []))"

definition updateEntry :: "host \<Rightarrow> string \<Rightarrow> obj \<Rightarrow> app \<Rightarrow> app" where
  "updateEntry h todayStr patch s =
    (let nextEntries = upsert todayStr (entries s) (date s) patch
     in s\<lparr>entries := nextEntries, storage := saveEntries h nextEntries (storage s)\<rparr>)"

text \<open>
  The patches the medication toggles pass to \<open>updateEntry\<close>:
  \<open>{ meds: { ...entry.meds, am: { ...entry.meds.am, [k]: v } } }\<close> for a morning dose and
  the same with \<open>pm\<close> for the evening dose. \<open>entry.meds.am\<close> throws when the entry has no
  \<open>meds\<close>.
\<close>

definition medsPatch :: "string \<Rightarrow> string \<Rightarrow> bool \<Rightarrow> json \<Rightarrow> error + obj" where
  "medsPatch part k v e =
    (case get (prop_of e ''meds'') part of
       Inl err \<Rightarrow> Inl err
     | Inr sub \<Rightarrow>
         Inr [(''meds'',
               JObj (obj_set part (JObj (obj_set k (JBool v) (assign (spread sub) [])))
                      (assign (spread (prop_of e ''meds'')) [])))])"

text \<open>\<open>resetToday\<close>; \<open>remove\<close> is the value \<open>nextEntries\<close> it computes.\<close>

definition remove :: "obj \<Rightarrow> string \<Rightarrow> obj" where
  "remove es d = obj_delete d (assign es [])"

definition resetToday :: "host \<Rightarrow> app \<Rightarrow> app" where
  "resetToday h s =
    (let nextEntries = remove (entries s) (date s)
     in s\<lparr>entries := nextEntries, storage := saveEntries h nextEntries (storage s)\<rparr>)"

section \<open>Danger flags\<close>

text \<open>
  The messages \<open>dangerFlags\<close> pushes, in the order of its five \<open>if\<close> statements: pulse
  abnormal (below 50 or above 110), suspected low blood pressure (below 90/60), bleeding
  reported, syncope reported, dyspnea reported.
\<close>

datatype flag = PulseAbnormal | LowBP | Bleeding | Syncope | Dyspnea

definition dangerFlags :: "host \<Rightarrow> json \<Rightarrow> error + flag list" where
  "dangerFlags h e =
    (if e = JNull then Inl TypeError
     else
       (case Number h (prop_of e ''pulse'') of
          Inl err \<Rightarrow> Inl err
        | Inr p \<Rightarrow>
       (case Number h (prop_of e ''bpSys'') of
          Inl err \<Rightarrow> Inl err
        | Inr sys \<Rightarrow>
       (case Number h (prop_of e ''bpDia'') of
          Inl err \<Rightarrow> Inl err
        | Inr dia \<Rightarrow>
            Inr
              ((if truthy_num p \<and> (lt p (Fin 50) \<or> lt (Fin 110) p) then [PulseAbnormal]
                else []) @
               (if truthy_num sys \<and> truthy_num dia \<and> (lt sys (Fin 90) \<or> lt dia (Fin 60))
                then [LowBP] else []) @
               (if truthy (prop_of e ''bleeding'') then [Bleeding] else []) @
               (if truthy (prop_of e ''syncope'') then [Syncope] else []) @
               (if truthy (prop_of e ''dyspnea'') then [Dyspnea] else []))))))"

section \<open>The derived views\<close>

text \<open>The string an argument converts to: \<open>undefined\<close> gives "undefined".\<close>

fun String_of :: "host \<Rightarrow> json option \<Rightarrow> error + string" where
  "String_of h None = Inr ''undefined''"
| "String_of h (Some v) = ToString h v"

text \<open>
  The comparator of both sorts, \<open>(a, b) => a.date.localeCompare(b.date)\<close>. It throws a
  TypeError when \<open>a\<close> or \<open>b\<close> is null, when \<open>a.date\<close> is not a string and when
  \<open>b.date\<close> does not convert to a string.
\<close>

definition byDate :: "host \<Rightarrow> json \<Rightarrow> json \<Rightarrow> error + int" where
  "byDate h a b =
    (if a = JNull \<or> b = JNull then Inl TypeError
     else
       (case prop_of a ''date'' of
          Some (JStr s) \<Rightarrow>
            (case String_of h (prop_of b ''date'') of
               Inl err \<Rightarrow> Inl err
             | Inr that \<Rightarrow> Inr (localeCompare h s that))
        | _ \<Rightarrow> Inl TypeError))"

text \<open>
  \<open>Array.prototype.sort\<close> with a comparator. The engine chooses the pairs it compares; a
  sort of fewer than two elements compares none. The model fails as soon as the
  comparator throws on some pair of elements (an engine may happen not to compare that
  pair), and otherwise gives the stable insertion order, which is the order every engine
  gives when the comparator is a consistent order on the elements.
\<close>

fun insort_by :: "('a \<Rightarrow> 'a \<Rightarrow> int) \<Rightarrow> 'a \<Rightarrow> 'a list \<Rightarrow> 'a list" where
  "insort_by c x [] = [x]"
| "insort_by c x (y # ys) = (if c x y \<le> 0 then x # y # ys else y # insort_by c x ys)"

definition sort_by :: "('a \<Rightarrow> 'a \<Rightarrow> int) \<Rightarrow> 'a list \<Rightarrow> 'a list" where
  "sort_by c xs = foldr (insort_by c) xs []"

definition array_sort :: "('a \<Rightarrow> 'a \<Rightarrow> error + int) \<Rightarrow> 'a list \<Rightarrow> error + 'a list" where
  "array_sort cmp xs =
    (if length xs < 2 then Inr xs
     else if list_ex (\<lambda>a. list_ex (\<lambda>b. isl (cmp a b)) xs) xs then Inl TypeError
     else Inr (sort_by (\<lambda>a b. case cmp a b of Inl e \<Rightarrow> 0 | Inr n \<Rightarrow> n) xs))"

text \<open>\<open>Array.prototype.map\<close> with a callback that may throw.\<close>

fun array_map :: "('a \<Rightarrow> error + 'b) \<Rightarrow> 'a list \<Rightarrow> error + 'b list" where
  "array_map f [] = Inr []"
| "array_map f (x # xs) =
    (case f x of
       Inl e \<Rightarrow> Inl e
     | Inr y \<Rightarrow> (case array_map f xs of Inl e \<Rightarrow> Inl e | Inr ys \<Rightarrow> Inr (y # ys)))"

text \<open>
  \<open>daysData\<close>: the entries sorted by date, each mapped to
  \<open>{ date: e.date.slice(5), pulse: Number(e.pulse) || null, sys: ..., dia: ... }\<close>.
  \<open>or_null n\<close> is \<open>n || null\<close>; \<open>slice5\<close> is \<open>.slice(5)\<close>, which strings and arrays have.
\<close>

definition or_null :: "number \<Rightarrow> json" where
  "or_null n = (if truthy_num n then JNum n else JNull)"

fun slice5 :: "json option \<Rightarrow> error + json" where
  "slice5 (Some (JStr s)) = Inr (JStr (drop 5 s))"
| "slice5 (Some (JArr xs)) = Inr (JArr (drop 5 xs))"
| "slice5 v = Inl TypeError"

definition point :: "host \<Rightarrow> json \<Rightarrow> error + json" where
  "point h e =
    (if e = JNull then Inl TypeError
     else
       (case slice5 (prop_of e ''date'') of
          Inl err \<Rightarrow> Inl err
        | Inr d \<Rightarrow>
       (case Number h (prop_of e ''pulse'') of
          Inl err \<Rightarrow> Inl err
        | Inr pulse \<Rightarrow>
       (case Number h (prop_of e ''bpSys'') of
          Inl err \<Rightarrow> Inl err
        | Inr sys \<Rightarrow>
       (case Number h (prop_of e ''bpDia'') of
          Inl err \<Rightarrow> Inl err
        | Inr dia \<Rightarrow>
            Inr (JObj [(''date'', d), (''pulse'', or_null pulse), (''sys'', or_null sys),
                       (''dia'', or_null dia)]))))))"

definition daysData :: "host \<Rightarrow> obj \<Rightarrow> error + json list" where
  "daysData h es =
    (case array_sort (byDate h) (map snd es) of
       Inl err \<Rightarrow> Inl err
     | Inr arr \<Rightarrow> array_map (point h) arr)"

text \<open>
  \<open>exportCSV\<close>: \<open>csvRows\<close> is the array \<open>rows\<close>, the header followed by one row per
  entry in date order; \<open>csvRow\<close> is the callback that builds a row. \<open>notes_text\<close> is
  \<open>(e.notes || "").replace(/\n/g, " ")\<close>, which throws when the notes are truthy and not a
  string. \<open>cell\<close> is the conversion \<open>join\<close> applies to an element: null and undefined
  give the empty string, and a value that does not convert to a string makes the join
  throw; \<open>join_row\<close> is \<open>r.join(",")\<close>. The text is offered for download as
  afibcare_<date>.csv.
\<close>

definition header :: "json option list" where
  "header = map (\<lambda>s. Some (JStr s))
    [''date'', ''pulse'', ''bpSys'', ''bpDia'', ''dizziness'', ''syncope'', ''dyspnea'', ''edema'',
     ''bleeding'', ''fatigue'', ''meds_am_multaq'', ''meds_am_edoxaban'', ''meds_am_bisoprolol'',
     ''meds_pm_multaq'', ''notes'']"

definition newlines_to_spaces :: "string \<Rightarrow> string" where
  "newlines_to_spaces s = map (\<lambda>c. if c = CHR 0x0A then CHR '' '' else c) s"

definition notes_text :: "json option \<Rightarrow> error + string" where
  "notes_text v =
    (case (if truthy v then v else Some (JStr [])) of
       Some (JStr s) \<Rightarrow> Inr (newlines_to_spaces s)
     | _ \<Rightarrow> Inl TypeError)"

definition csvRow :: "json \<Rightarrow> error + json option list" where
  "csvRow e =
    (if e = JNull then Inl TypeError
     else
       (case notes_text (prop_of e ''notes'') of
          Inl err \<Rightarrow> Inl err
        | Inr n \<Rightarrow>
            Inr [prop_of e ''date'', prop_of e ''pulse'', prop_of e ''bpSys'', prop_of e ''bpDia'',
                 prop_of e ''dizziness'', prop_of e ''syncope'', prop_of e ''dyspnea'',
                 prop_of e ''edema'', prop_of e ''bleeding'', prop_of e ''fatigue'',
                 path (prop_of e ''meds'') [''am'', ''multaq''],
                 path (prop_of e ''meds'') [''am'', ''edoxaban''],
                 path (prop_of e ''meds'') [''am'', ''bisoprolol''],
                 path (prop_of e ''meds'') [''pm'', ''multaq''],
                 Some (JStr n)]))"

definition csvRows :: "host \<Rightarrow> obj \<Rightarrow> error + json option list list" where
  "csvRows h es =
    (case array_sort (byDate h) (map snd es) of
       Inl err \<Rightarrow> Inl err
     | Inr arr \<Rightarrow>
         (case array_map csvRow arr of
            Inl err \<Rightarrow> Inl err
          | Inr body \<Rightarrow> Inr (header # body)))"

fun cell :: "host \<Rightarrow> json option \<Rightarrow> error + string" where
  "cell h None = Inr []"
| "cell h (Some JNull) = Inr []"
| "cell h (Some v) = ToString h v"

definition join_row :: "host \<Rightarrow> json option list \<Rightarrow> error + string" where
  "join_row h r =
    (case array_map (cell h) r of Inl err \<Rightarrow> Inl err | Inr ss \<Rightarrow> Inr (join '','' ss))"

definition exportCSV :: "host \<Rightarrow> obj \<Rightarrow> error + string" where
  "exportCSV h es =
    (case csvRows h es of
       Inl err \<Rightarrow> Inl err
     | Inr rows \<Rightarrow>
         (case array_map (join_row h) rows of
            Inl err \<Rightarrow> Inl err
          | Inr ls \<Rightarrow> Inr (join [CHR 0x0A] ls)))"

text \<open>
  What the claims assume of a store: \<open>has_date\<close>, the entry is an object whose date is a
  string, \<open>date_of\<close> that string; \<open>notes_ok\<close>, its notes are a string or falsy (absent
  included), \<open>notes_of\<close> the string; \<open>numeric_ok\<close>, its pulse, bpSys and bpDia convert
  to numbers, as every text, number and absent field does; \<open>collates h ds\<close>, on the dates
  \<open>ds\<close> the host's \<open>localeCompare\<close> orders as the code units do, which is so for
  YYYY-MM-DD dates.
\<close>

definition has_date :: "json \<Rightarrow> bool" where
  "has_date e = (case prop_of e ''date'' of Some (JStr s) \<Rightarrow> True | _ \<Rightarrow> False)"

definition date_of :: "json \<Rightarrow> string" where
  "date_of e = (case prop_of e ''date'' of Some (JStr s) \<Rightarrow> s | _ \<Rightarrow> [])"

definition collates :: "host \<Rightarrow> string list \<Rightarrow> bool" where
  "collates h ds = list_all (\<lambda>a. list_all (\<lambda>b. (localeCompare h a b \<le> 0) = (a \<le> b)) ds) ds"

definition notes_ok :: "json \<Rightarrow> bool" where
  "notes_ok e =
    (case prop_of e ''notes'' of
       Some (JStr s) \<Rightarrow> True
     | v \<Rightarrow> \<not> truthy v)"

definition notes_of :: "json \<Rightarrow> string" where
  "notes_of e = (case prop_of e ''notes'' of Some (JStr s) \<Rightarrow> s | _ \<Rightarrow> [])"

definition numeric_ok :: "json \<Rightarrow> bool" where
  "numeric_ok e =
    (conv_opt (prop_of e ''pulse'') \<and> conv_opt (prop_of e ''bpSys'') \<and>
     conv_opt (prop_of e ''bpDia''))"

text \<open>
  The row of an entry with a date and proper notes; \<open>cells_ok\<close>, every cell of that row
  converts to a string.
\<close>

definition row_of :: "json \<Rightarrow> json option list" where
  "row_of e =
    [prop_of e ''date'', prop_of e ''pulse'', prop_of e ''bpSys'', prop_of e ''bpDia'',
     prop_of e ''dizziness'', prop_of e ''syncope'', prop_of e ''dyspnea'',
     prop_of e ''edema'', prop_of e ''bleeding'', prop_of e ''fatigue'',
     path (prop_of e ''meds'') [''am'', ''multaq''],
     path (prop_of e ''meds'') [''am'', ''edoxaban''],
     path (prop_of e ''meds'') [''am'', ''bisoprolol''],
     path (prop_of e ''meds'') [''pm'', ''multaq''],
     Some (JStr (newlines_to_spaces (notes_of e)))]"

definition cells_ok :: "json \<Rightarrow> bool" where
  "cells_ok e = list_all conv_opt (row_of e)"

text \<open>
  What a value that converts converts to: its text, its number, the text of its cell,
  the line of a row and the point of an entry.
\<close>

fun text_of :: "host \<Rightarrow> json \<Rightarrow> string" where
  "text_of h JNull = ''null''"
| "text_of h (JBool b) = (if b then ''true'' else ''false'')"
| "text_of h (JNum n) = NumberToString h n"
| "text_of h (JStr s) = s"
| "text_of h (JArr xs) = join '','' (map (\<lambda>x. if x = JNull then [] else text_of h x) xs)"
| "text_of h (JObj kvs) = ''[object Object]''"

fun number_of :: "host \<Rightarrow> json option \<Rightarrow> number" where
  "number_of h None = NaN"
| "number_of h (Some JNull) = Fin 0"
| "number_of h (Some (JBool b)) = (if b then Fin 1 else Fin 0)"
| "number_of h (Some (JNum n)) = n"
| "number_of h (Some (JStr s)) = StringToNumber h s"
| "number_of h (Some (JArr xs)) = StringToNumber h (text_of h (JArr xs))"
| "number_of h (Some (JObj kvs)) = StringToNumber h (text_of h (JObj kvs))"

fun cell_text :: "host \<Rightarrow> json option \<Rightarrow> string" where
  "cell_text h None = []"
| "cell_text h (Some JNull) = []"
| "cell_text h (Some v) = text_of h v"

definition line_of :: "host \<Rightarrow> json option list \<Rightarrow> string" where
  "line_of h r = join '','' (map (cell_text h) r)"

definition point_of :: "host \<Rightarrow> json \<Rightarrow> json" where
  "point_of h e =
     JObj [(''date'', JStr (drop 5 (date_of e))),
           (''pulse'', or_null (number_of h (prop_of e ''pulse''))),
           (''sys'', or_null (number_of h (prop_of e ''bpSys''))),
           (''dia'', or_null (number_of h (prop_of e ''bpDia'')))]"

section \<open>Dates and the demo data\<close>

text \<open>
  The calendar of ECMAScript dates, for the days from 1970-01-01 on, numbered from 0:
  \<open>civil n\<close> is the year, month and day of the month of day \<open>n\<close>, found by taking whole
  years and then whole months off \<open>n\<close>; \<open>day_number\<close> goes back from a date to its day.
\<close>

definition leap :: "nat \<Rightarrow> bool" where
  "leap y = (y mod 4 = 0 \<and> (y mod 100 \<noteq> 0 \<or> y mod 400 = 0))"

definition DaysInYear :: "nat \<Rightarrow> nat" where
  "DaysInYear y = (if leap y then 366 else 365)"

definition month_lengths :: "nat \<Rightarrow> nat list" where
  "month_lengths y = [31, if leap y then 29 else 28, 31, 30, 31, 30, 31, 31, 30, 31, 30, 31]"

function years_from :: "nat \<Rightarrow> nat \<Rightarrow> nat \<times> nat" where
  "years_from y n =
    (if n < DaysInYear y then (y, n) else years_from (Suc y) (n - DaysInYear y))"
  by pat_completeness auto
termination
  by (relation "measure snd") (auto simp: DaysInYear_def)

declare years_from.simps [simp del]

fun months_from :: "nat list \<Rightarrow> nat \<Rightarrow> nat \<Rightarrow> nat \<times> nat" where
  "months_from [] m n = (m, n)"
| "months_from (l # ls) m n = (if n < l then (m, n) else months_from ls (Suc m) (n - l))"

definition civil :: "nat \<Rightarrow> nat \<times> nat \<times> nat" where
  "civil n =
    (case years_from 1970 n of
       (y, r) \<Rightarrow> (case months_from (month_lengths y) 0 r of (m, d) \<Rightarrow> (y, Suc m, Suc d)))"

definition day_number :: "nat \<times> nat \<times> nat \<Rightarrow> nat" where
  "day_number c =
    (case c of
       (y, m, d) \<Rightarrow>
         sum_list (map DaysInYear [1970..<y]) + sum_list (take (m - 1) (month_lengths y)) + (d - 1))"

text \<open>
  \<open>fixed k n\<close> is \<open>n\<close> in \<open>k\<close> decimal digits, as \<open>toISOString\<close> prints the fields of a
  date; \<open>iso_date\<close> is the YYYY-MM-DD text of a date of the years 0 to 9999 and \<open>iso_day\<close>
  that of a day.
\<close>

fun fixed :: "nat \<Rightarrow> nat \<Rightarrow> string" where
  "fixed 0 n = []"
| "fixed (Suc k) n = fixed k (n div 10) @ [''0123456789'' ! (n mod 10)]"

definition iso_date :: "nat \<times> nat \<times> nat \<Rightarrow> string" where
  "iso_date c = (case c of (y, m, d) \<Rightarrow> fixed 4 y @ ''-'' @ fixed 2 m @ ''-'' @ fixed 2 d)"

definition iso_day :: "nat \<Rightarrow> string" where
  "iso_day n = iso_date (civil n)"

text \<open>
  A \<open>Date\<close> is its time value, the milliseconds since 1970-01-01T00:00:00Z. The host
  gives the clock and the time zone: \<open>now z i\<close> is the time value of the \<open>new Date()\<close>
  that \<open>fillDemo\<close> evaluates in its iteration for \<open>i\<close>, \<open>getTimezoneOffset z t\<close> the
  offset in minutes of local time at \<open>t\<close>, and \<open>UTC z x\<close> the time value of the local
  time \<open>x\<close>. \<open>getDate\<close>, \<open>setDate\<close> and \<open>toISOString\<close> are those of ECMAScript:
  \<open>setDate\<close> counts the day of the month from the first day of the month of the local
  date, so that a day below 1 falls in an earlier month, and keeps the time within the
  day. \<open>local_day z t\<close> is the day on which \<open>t\<close> falls in local time; the days before
  1970-01-01 are outside the calendar of the model.
\<close>

record dates =
  now :: "nat \<Rightarrow> int"
  getTimezoneOffset :: "int \<Rightarrow> int"
  UTC :: "int \<Rightarrow> int"

definition msPerDay :: int where
  "msPerDay = 86400000"

definition LocalTime :: "dates \<Rightarrow> int \<Rightarrow> int" where
  "LocalTime z t = t - getTimezoneOffset z t * 60000"

definition local_day :: "dates \<Rightarrow> int \<Rightarrow> nat" where
  "local_day z t = nat (LocalTime z t div msPerDay)"

definition getDate :: "dates \<Rightarrow> int \<Rightarrow> int" where
  "getDate z t = (case civil (local_day z t) of (y, m, d) \<Rightarrow> int d)"

definition setDate :: "dates \<Rightarrow> int \<Rightarrow> int \<Rightarrow> int" where
  "setDate z t dt =
    (case civil (local_day z t) of
       (y, m, d) \<Rightarrow>
         UTC z ((int (day_number (y, m, 1)) + dt - 1) * msPerDay + LocalTime z t mod msPerDay))"

definition toISOString :: "int \<Rightarrow> string" where
  "toISOString t =
    iso_date (civil (nat (t div msPerDay))) @ ''T'' @
    fixed 2 (nat (t mod msPerDay div 3600000)) @ '':'' @
    fixed 2 (nat (t mod 3600000 div 60000)) @ '':'' @
    fixed 2 (nat (t mod 60000 div 1000)) @ ''.'' @
    fixed 3 (nat (t mod 1000)) @ ''Z''"

text \<open>\<open>fmtDate\<close>, lines 16 to 20: the local date of \<open>d\<close> as YYYY-MM-DD.\<close>

definition fmtDate :: "dates \<Rightarrow> int \<Rightarrow> string" where
  "fmtDate z d =
    (let tzOffset = getTimezoneOffset z d;
         local = d - tzOffset * 60000
     in take 10 (toISOString local))"

text \<open>
  \<open>fillDemo\<close>. The values of its floating-point expressions are given: for the
  iteration \<open>i\<close>, \<open>pulse_of r i\<close> is \<open>70 + Math.round(Math.sin(i / 2) * 10 +
  (Math.random() * 6 - 3))\<close>, \<open>bpSys_of\<close> and \<open>bpDia_of\<close> the like,
  \<open>dizziness_of r i\<close> is \<open>Math.random() < 0.08\<close>, \<open>bleeding_of r i\<close> is
  \<open>Math.random() < 0.03\<close> and \<open>fatigue_of r i\<close> is \<open>Math.random() < 0.15\<close>.
  \<open>demoEntry\<close> is the object literal stored under the date \<open>ds\<close>, and
  \<open>fillDemo_loop z r todayStr k m\<close> runs the iterations \<open>i = k - 1\<close> down to \<open>0\<close> on the
  map \<open>m\<close>; \<open>days\<close> is 28.
\<close>

record draws =
  pulse_of :: "nat \<Rightarrow> number"
  bpSys_of :: "nat \<Rightarrow> number"
  bpDia_of :: "nat \<Rightarrow> number"
  dizziness_of :: "nat \<Rightarrow> bool"
  bleeding_of :: "nat \<Rightarrow> bool"
  fatigue_of :: "nat \<Rightarrow> bool"

definition demoEntry :: "draws \<Rightarrow> string \<Rightarrow> string \<Rightarrow> nat \<Rightarrow> json" where
  "demoEntry r todayStr ds i =
    JObj (assign
      [(''date'', JStr ds),
       (''pulse'', JNum (pulse_of r i)),
       (''bpSys'', JNum (bpSys_of r i)),
       (''bpDia'', JNum (bpDia_of r i)),
       (''dizziness'', JBool (dizziness_of r i)),
       (''bleeding'', JBool (bleeding_of r i)),
       (''fatigue'', JStr (if fatigue_of r i then ''1'' else ''0'')),
       (''meds'', JObj
          [(''am'', JObj [(''multaq'', JBool True), (''edoxaban'', JBool True),
                          (''bisoprolol'', JBool True)]),
           (''pm'', JObj [(''multaq'', JBool True)])])]
      (assign (defaultEntry todayStr) []))"

fun fillDemo_loop :: "dates \<Rightarrow> draws \<Rightarrow> string \<Rightarrow> nat \<Rightarrow> obj \<Rightarrow> obj" where
  "fillDemo_loop z r todayStr 0 m = m"
| "fillDemo_loop z r todayStr (Suc i) m =
    (let d = setDate z (now z i) (getDate z (now z i) - int i);
         ds = fmtDate z d
     in fillDemo_loop z r todayStr i (obj_set ds (demoEntry r todayStr ds i) m))"

definition fillDemo :: "host \<Rightarrow> dates \<Rightarrow> draws \<Rightarrow> string \<Rightarrow> app \<Rightarrow> app" where
  "fillDemo h z r todayStr s =
    (let m = fillDemo_loop z r todayStr 28 []
     in s\<lparr>entries := m, storage := saveEntries h m (storage s)\<rparr>)"

text \<open>The entries of the demo data when every clock reading falls on the day \<open>today\<close>.\<close>

definition demo_pairs :: "draws \<Rightarrow> string \<Rightarrow> nat \<Rightarrow> nat \<Rightarrow> (string \<times> json) list" where
  "demo_pairs r t today k =
    map (\<lambda>i. (iso_day (today - i), demoEntry r t (iso_day (today - i)) i)) (rev [0..<k])"

section \<open>A host for the examples\<close>

text \<open>
  The examples below are evaluated on this host. It is ECMAScript on the strings the
  examples use: the empty string converts to 0 and an unsigned decimal integer to its
  value, a natural number prints as its decimal digits, and two strings of digits and
  hyphens of the same shape (as YYYY-MM-DD dates are) compare code unit by code unit.
  \<open>plain_parse\<close> knows the three JSON texts of the examples.
\<close>

definition digits_value :: "string \<Rightarrow> nat" where
  "digits_value s = foldl (\<lambda>n c. 10 * n + (of_char c - 48)) 0 s"

definition plain_StringToNumber :: "string \<Rightarrow> number" where
  "plain_StringToNumber s =
    (if list_all is_digit s then Fin (of_nat (digits_value s)) else NaN)"

definition plain_NumberToString :: "number \<Rightarrow> string" where
  "plain_NumberToString n =
    (case n of
       NaN \<Rightarrow> ''NaN''
     | NegInf \<Rightarrow> ''-Infinity''
     | PosInf \<Rightarrow> ''Infinity''
     | Fin q \<Rightarrow> show_nat (nat \<lfloor>q\<rfloor>))"

definition plain_localeCompare :: "string \<Rightarrow> string \<Rightarrow> int" where
  "plain_localeCompare a b = (if a < b then - 1 else if a = b then 0 else 1)"

definition plain_parse :: "string \<Rightarrow> error + json" where
  "plain_parse s =
    (if s = ''{}'' then Inr (JObj [])
     else if s = ''[7]'' then Inr (JArr [JNum (Fin 7)])
     else if s = ''7'' then Inr (JNum (Fin 7))
     else Inl SyntaxError)"

text \<open>JSON text of a value, for strings that need no escape.\<close>

fun plain_stringify :: "json \<Rightarrow> string" where
  "plain_stringify JNull = ''null''"
| "plain_stringify (JBool b) = (if b then ''true'' else ''false'')"
| "plain_stringify (JNum n) = (case n of Fin q \<Rightarrow> plain_NumberToString n | _ \<Rightarrow> ''null'')"
| "plain_stringify (JStr s) = [CHR 0x22] @ s @ [CHR 0x22]"
| "plain_stringify (JArr xs) = ''['' @ join '','' (map plain_stringify xs) @ '']''"
| "plain_stringify (JObj kvs) =
     ''{'' @ join '','' (map (\<lambda>kv. [CHR 0x22] @ fst kv @ [CHR 0x22] @ '':'' @ plain_stringify (snd kv)) kvs)
       @ ''}''"

definition plain_host :: host where
  "plain_host =
    \<lparr> StringToNumber = plain_StringToNumber,
      NumberToString = plain_NumberToString,
      localeCompare = plain_localeCompare,
      JSON_parse = plain_parse,
      JSON_stringify = plain_stringify \<rparr>"

section \<open>Example data\<close>

definition example_entry :: "string \<Rightarrow> json" where
  "example_entry d =
    JObj [(''date'', JStr d), (''pulse'', JStr ''72''), (''bpSys'', JStr ''120''),
          (''bpDia'', JStr ''80''), (''dizziness'', JBool False), (''syncope'', JBool False),
          (''dyspnea'', JBool False), (''edema'', JBool False), (''bleeding'', JBool False),
          (''fatigue'', JStr ''0''),
          (''meds'', JObj
             [(''am'', JObj [(''multaq'', JBool False), (''edoxaban'', JBool True),
                             (''bisoprolol'', JBool False)]),
              (''pm'', JObj [(''multaq'', JBool True)])]),
          (''notes'', JStr ''ok'')]"

definition example_store :: obj where
  "example_store =
    [(''2024-03-05'', example_entry ''2024-03-05''),
     (''2024-03-04'', example_entry ''2024-03-04'')]"

definition example_app :: app where
  "example_app = \<lparr> entries = example_store, date = ''2024-03-05'', storage = Map.empty \<rparr>"

definition sparse_store :: obj where
  "sparse_store =
    [(''2024-03-05'', JObj [(''date'', JStr ''2024-03-05''), (''pulse'', JStr ''abc''),
                            (''bpSys'', JStr ''0''), (''dizziness'', JBool True),
                            (''notes'', JStr [CHR ''a'', CHR 0x0A, CHR ''b''])]),
     (''2023-12-31'', JObj [(''date'', JStr ''2023-12-31''), (''pulse'', JNum (Fin 64)),
                            (''meds'', JObj [(''am'', JNull)])])]"

text \<open>
  A host in the time zone of Seoul (UTC+9, no daylight saving time) whose clock reads
  2024-03-05T07:00:00Z, and constant values for the demo data.
\<close>

definition seoul :: dates where
  "seoul = \<lparr> now = (\<lambda>i. 1709622000000), getTimezoneOffset = (\<lambda>t. - 540),
             UTC = (\<lambda>x. x - 32400000) \<rparr>"

definition flat_draws :: draws where
  "flat_draws = \<lparr> pulse_of = (\<lambda>i. Fin 70), bpSys_of = (\<lambda>i. Fin 120), bpDia_of = (\<lambda>i. Fin 78),
                  dizziness_of = (\<lambda>i. False), bleeding_of = (\<lambda>i. False),
                  fatigue_of = (\<lambda>i. False) \<rparr>"

text \<open>An entry whose pulse is an object with a \<open>toString\<close> property of its own.\<close>

definition trap_entry :: json where
  "trap_entry =
    JObj [(''date'', JStr ''2024-03-05''), (''pulse'', JObj [(''toString'', JNum (Fin 1))]),
          (''bpSys'', JStr ''120''), (''bpDia'', JStr ''80'')]"

definition trap_store :: obj where
  "trap_store =
    [(''2024-03-05'', trap_entry),
     (''2023-12-31'', JObj [(''date'', JStr ''2023-12-31''), (''pulse'', JNum (Fin 64))])]"

section \<open>Properties of objects\<close>

lemma map_of_obj_set: "map_of (obj_set k v kvs) = (map_of kvs)(k \<mapsto> v)"
  by (induction kvs) (auto simp: fun_eq_iff)

lemma fst_set_obj_set: "fst ` set (obj_set k v kvs) = insert k (fst ` set kvs)"
  by (induction kvs) auto

lemma obj_set_fresh: "k \<notin> fst ` set kvs \<Longrightarrow> obj_set k v kvs = kvs @ [(k, v)]"
  by (induction kvs) auto

lemma distinct_obj_set: "distinct (map fst kvs) \<Longrightarrow> distinct (map fst (obj_set k v kvs))"
  by (induction kvs) (auto simp: fst_set_obj_set)

lemma fold_obj_set_fresh:
  "distinct (map fst (acc @ src)) \<Longrightarrow> fold (\<lambda>kv. obj_set (fst kv) (snd kv)) src acc = acc @ src"
proof (induction src arbitrary: acc)
  case Nil
  then show ?case by simp
next
  case (Cons kv src)
  have "fst kv \<notin> fst ` set acc" using Cons.prems by auto
  then have step: "obj_set (fst kv) (snd kv) acc = acc @ [kv]"
    by (simp add: obj_set_fresh)
  have "distinct (map fst ((acc @ [kv]) @ src))" using Cons.prems by simp
  from Cons.IH [OF this] show ?case by (simp add: step)
qed

lemma assign_Nil: "distinct (map fst src) \<Longrightarrow> assign src [] = src"
  using fold_obj_set_fresh [of "[]" src] by (simp add: assign_def)

lemma map_of_fold_obj_set:
  "distinct (map fst src) \<Longrightarrow>
   map_of (fold (\<lambda>kv. obj_set (fst kv) (snd kv)) src acc) x =
     (case map_of src x of None \<Rightarrow> map_of acc x | Some v \<Rightarrow> Some v)"
proof (induction src arbitrary: acc)
  case Nil
  then show ?case by simp
next
  case (Cons kv src)
  then have d: "distinct (map fst src)" and none: "map_of src (fst kv) = None"
    by (auto simp: map_of_eq_None_iff)
  show ?case
    using none by (auto simp: Cons.IH [OF d] map_of_obj_set split: option.splits)
qed

lemma map_of_assign:
  "distinct (map fst src) \<Longrightarrow>
   map_of (assign src target) x =
     (case map_of src x of None \<Rightarrow> map_of target x | Some v \<Rightarrow> Some v)"
  by (simp add: assign_def map_of_fold_obj_set)

lemma length_show_nat: "0 < length (show_nat n)"
  by (subst show_nat.simps) simp

lemma digit_nth_inj:
  "i < 10 \<Longrightarrow> j < 10 \<Longrightarrow> ''0123456789'' ! i = ''0123456789'' ! j \<Longrightarrow> i = j"
proof -
  have "distinct ''0123456789''" by simp
  then show "i < 10 \<Longrightarrow> j < 10 \<Longrightarrow> ''0123456789'' ! i = ''0123456789'' ! j \<Longrightarrow> i = j"
    by (simp add: nth_eq_iff_index_eq)
qed

lemma show_nat_inj: "show_nat n = show_nat m \<Longrightarrow> n = m"
proof (induction n arbitrary: m rule: show_nat.induct)
  case (1 n)
  show ?case
  proof (cases "n < 10")
    case True
    show ?thesis
    proof (cases "m < 10")
      case mT: True
      from "1.prems" True mT have "''0123456789'' ! n = ''0123456789'' ! m"
        by (subst (asm) show_nat.simps, subst (asm) (2) show_nat.simps, simp)
      with True mT show ?thesis by (rule digit_nth_inj)
    next
      case False
      have "length (show_nat n) = 1" using True by (subst show_nat.simps) simp
      moreover have "length (show_nat m) > 1"
        using False length_show_nat [of "m div 10"] by (subst show_nat.simps) simp
      ultimately show ?thesis using "1.prems" by simp
    qed
  next
    case False
    show ?thesis
    proof (cases "m < 10")
      case True
      have "length (show_nat m) = 1" using True by (subst show_nat.simps) simp
      moreover have "length (show_nat n) > 1"
        using False length_show_nat [of "n div 10"] by (subst show_nat.simps) simp
      ultimately show ?thesis using "1.prems" by simp
    next
      case mF: False
      have n: "show_nat n = show_nat (n div 10) @ [''0123456789'' ! (n mod 10)]"
        using False by (subst show_nat.simps) simp
      have m: "show_nat m = show_nat (m div 10) @ [''0123456789'' ! (m mod 10)]"
        using mF by (subst show_nat.simps) simp
      from "1.prems" n m have a: "show_nat (n div 10) = show_nat (m div 10)"
        and b: "''0123456789'' ! (n mod 10) = ''0123456789'' ! (m mod 10)" by simp_all
      from "1.IH" [OF False a] have "n div 10 = m div 10" .
      moreover from b have "n mod 10 = m mod 10" by (intro digit_nth_inj) simp_all
      ultimately show ?thesis by (metis div_mult_mod_eq)
    qed
  qed
qed

lemma distinct_index_keys: "distinct (map show_nat [0..<n])"
  by (simp add: distinct_map inj_on_def show_nat_inj)

lemma distinct_spread: "wf v \<Longrightarrow> distinct (map fst (spread (Some v)))"
  by (cases v) (simp_all add: distinct_index_keys)

lemma wf_default: "wf (JObj (defaultEntry t))"
  by (simp add: defaultEntry_def)

lemma show_nat_digits: "list_all is_digit (show_nat n)"
proof (induction n rule: show_nat.induct)
  case (1 n)
  have dig: "\<And>i. i < 10 \<Longrightarrow> is_digit (''0123456789'' ! i)"
  proof -
    fix i :: nat assume "i < 10"
    then have "''0123456789'' ! i \<in> set ''0123456789''" by (intro nth_mem) simp
    then show "is_digit (''0123456789'' ! i)" by (auto simp: is_digit_def)
  qed
  show ?case
  proof (cases "n < 10")
    case True
    then show ?thesis by (subst show_nat.simps) (simp add: dig)
  next
    case False
    then show ?thesis using "1.IH" by (subst show_nat.simps) (simp add: dig)
  qed
qed

lemma field_name_not_index: "field_name k \<Longrightarrow> k \<notin> set (map show_nat [0..<n])"
  using show_nat_digits by (auto simp: field_name_def)

lemma map_of_spread: "field_name k \<Longrightarrow> map_of (spread v) k = chain v k"
proof (cases v)
  case None
  then show ?thesis by simp
next
  case (Some x)
  assume fk: "field_name k"
  show ?thesis
  proof (cases x)
    case (JArr xs)
    have "k \<notin> fst ` set (zip (map show_nat [0..<length xs]) xs)"
      using field_name_not_index [OF fk, of "length xs"] by (auto dest: set_zip_leftD)
    then show ?thesis using Some JArr by (simp add: map_of_eq_None_iff)
  next
    case (JStr s)
    have "k \<notin> fst ` set (zip (map show_nat [0..<length s]) (map (\<lambda>c. JStr [c]) s))"
      using field_name_not_index [OF fk, of "length s"] by (auto dest: set_zip_leftD)
    then show ?thesis using Some JStr by (simp add: map_of_eq_None_iff)
  qed (simp_all add: Some)
qed

lemma wf_entry: "wf (JObj es) \<Longrightarrow> wf (entry t es d)"
  by (auto simp: entry_def Let_def defaultEntry_def assign_def split: option.splits dest: map_of_SomeD)

lemma entry_not_null: "entry t es d \<noteq> JNull"
  by (auto simp: entry_def Let_def split: option.splits)

lemma wf_prop_of: "wf v \<Longrightarrow> wf_opt (prop_of v k)"
  by (cases v; cases "prop_of v k") (auto dest: map_of_SomeD)

lemma wf_chain: "wf_opt v \<Longrightarrow> wf_opt (chain v k)"
  by (cases "(v, k)" rule: chain.cases) (simp_all add: wf_prop_of del: prop_of.simps)

lemma distinct_spread_opt: "wf_opt v \<Longrightarrow> distinct (map fst (spread v))"
  by (cases v) (simp_all add: distinct_spread)

lemma upsert_at:
  assumes "wf (JObj es)" "distinct (map fst patch)"
  shows "map_of (upsert t es d patch) d =
           Some (JObj (assign patch (assign (spread (Some (entry t es d))) [])))"
  by (simp add: upsert_def Let_def map_of_obj_set)

lemma upsert_other:
  assumes "distinct (map fst es)" "d' \<noteq> d"
  shows "map_of (upsert t es d patch) d' = map_of es d'"
  using assms by (simp add: upsert_def Let_def map_of_obj_set assign_Nil)

lemma merged_field:
  assumes "wf e" "distinct (map fst patch)"
  shows "map_of (assign patch (assign (spread (Some e)) [])) k =
          (case map_of patch k of None \<Rightarrow> map_of (spread (Some e)) k | Some v \<Rightarrow> Some v)"
  using assms by (simp add: map_of_assign assign_Nil distinct_spread)

lemma medsPatch_Inr:
  "medsPatch part j v e = Inr p \<Longrightarrow>
   \<exists>sub. get (prop_of e ''meds'') part = Inr sub \<and>
     p = [(''meds'', JObj (obj_set part (JObj (obj_set j (JBool v) (assign (spread sub) [])))
                      (assign (spread (prop_of e ''meds'')) [])))]"
  unfolding medsPatch_def by (cases "get (prop_of e ''meds'') part") simp_all

lemma get_chain: "get m k = Inr sub \<Longrightarrow> sub = chain m k"
  by (cases "(m, k)" rule: get.cases) auto

lemma medsPatch_result:
  assumes "wf e" and "medsPatch part j v e = Inr p"
  shows "\<exists>ms. p = [(''meds'', JObj ms)] \<and>
     (\<forall>k. field_name k \<longrightarrow>
        path (Some (JObj ms)) [part, k] =
          (if k = j then Some (JBool v) else path (prop_of e ''meds'') [part, k])) \<and>
     (\<forall>q. field_name q \<longrightarrow> q \<noteq> part \<longrightarrow> map_of ms q = chain (prop_of e ''meds'') q)"
proof -
  from medsPatch_Inr [OF assms(2)] obtain sub where g: "get (prop_of e ''meds'') part = Inr sub"
    and p: "p = [(''meds'', JObj (obj_set part (JObj (obj_set j (JBool v) (assign (spread sub) [])))
                      (assign (spread (prop_of e ''meds'')) [])))]"
    by blast
  have wfm: "wf_opt (prop_of e ''meds'')"
    using assms(1) by (rule wf_prop_of)
  from g have sub: "sub = chain (prop_of e ''meds'') part" by (rule get_chain)
  have wfs: "wf_opt sub" using wfm sub by (simp add: wf_chain)
  have dm: "distinct (map fst (spread (prop_of e ''meds'')))" using wfm by (rule distinct_spread_opt)
  have ds: "distinct (map fst (spread sub))" using wfs by (rule distinct_spread_opt)
  have a: "\<forall>k. field_name k \<longrightarrow>
        path (Some (JObj (obj_set part (JObj (obj_set j (JBool v) (assign (spread sub) [])))
                      (assign (spread (prop_of e ''meds'')) [])))) [part, k] =
          (if k = j then Some (JBool v) else path (prop_of e ''meds'') [part, k])"
    using ds sub by (simp add: map_of_obj_set assign_Nil map_of_spread)
  have b: "\<forall>q. field_name q \<longrightarrow> q \<noteq> part \<longrightarrow>
     map_of (obj_set part (JObj (obj_set j (JBool v) (assign (spread sub) [])))
                      (assign (spread (prop_of e ''meds'')) [])) q = chain (prop_of e ''meds'') q"
    using dm by (simp add: map_of_obj_set assign_Nil map_of_spread)
  from p a b show ?thesis by blast
qed

lemma upsert_medsPatch:
  assumes "wf (JObj es)" and "medsPatch part j v (entry t es d) = Inr p"
  shows "(\<forall>k. field_name k \<longrightarrow>
            path (map_of (upsert t es d p) d) [''meds'', part, k] =
              (if k = j then Some (JBool v) else path (Some (entry t es d)) [''meds'', part, k])) \<and>
         (\<forall>q. field_name q \<longrightarrow> q \<noteq> part \<longrightarrow>
            path (map_of (upsert t es d p) d) [''meds'', q] =
              path (Some (entry t es d)) [''meds'', q])"
proof -
  have wfe: "wf (entry t es d)" using assms(1) by (rule wf_entry)
  from medsPatch_result [OF wfe assms(2)] obtain ms where p: "p = [(''meds'', JObj ms)]"
    and a: "\<forall>k. field_name k \<longrightarrow>
        path (Some (JObj ms)) [part, k] =
          (if k = j then Some (JBool v) else path (prop_of (entry t es d) ''meds'') [part, k])"
    and b: "\<forall>q. field_name q \<longrightarrow> q \<noteq> part \<longrightarrow>
        map_of ms q = chain (prop_of (entry t es d) ''meds'') q"
    by blast
  have dp: "distinct (map fst p)" using p by simp
  have m: "map_of (assign p (assign (spread (Some (entry t es d))) [])) ''meds'' = Some (JObj ms)"
    by (simp add: merged_field [OF wfe dp]) (simp add: p)
  have at: "chain (map_of (upsert t es d p) d) ''meds'' = Some (JObj ms)"
    by (simp add: upsert_at [OF assms(1) dp] m)
  have e: "chain (Some (entry t es d)) ''meds'' = prop_of (entry t es d) ''meds''"
    using entry_not_null [of t es d] by (cases "entry t es d") simp_all
  show ?thesis using a b by (simp add: at e)
qed

lemma map_of_obj_delete: "map_of (obj_delete d kvs) d' = (if d' = d then None else map_of kvs d')"
  by (induction kvs) (auto simp: obj_delete_def)

lemma map_of_remove:
  "distinct (map fst es) \<Longrightarrow> map_of (remove es d) d' = (if d' = d then None else map_of es d')"
  by (simp add: remove_def map_of_obj_delete assign_Nil)

lemma remove_absent: "map_of (remove es d) d = None"
  by (simp add: remove_def map_of_obj_delete)


section \<open>Properties of the conversions\<close>

lemma ToString_converts:
  "ToString h v = (if converts v then Inr (text_of h v) else Inl TypeError)"
  "join_elements h xs =
     (if \<forall>x \<in> set xs. converts x
      then Inr (map (\<lambda>x. if x = JNull then [] else text_of h x) xs)
      else Inl TypeError)"
  by (induction h v and h xs rule: ToString_join_elements.induct) auto

lemma Number_converts:
  "Number h v = (if conv_opt v then Inr (number_of h v) else Inl TypeError)"
  by (cases "(h, v)" rule: Number.cases) (simp_all add: ToString_converts del: ToString.simps)

lemma cell_converts:
  "cell h c = (if conv_opt c then Inr (cell_text h c) else Inl TypeError)"
  by (cases "(h, c)" rule: cell.cases) (simp_all add: ToString_converts del: ToString.simps)

lemma array_map_total: "\<forall>x \<in> set xs. f x = Inr (g x) \<Longrightarrow> array_map f xs = Inr (map g xs)"
  by (induction xs) auto

lemma join_row_converts: "list_all conv_opt r \<Longrightarrow> join_row h r = Inr (line_of h r)"
proof -
  assume "list_all conv_opt r"
  then have "\<forall>c \<in> set r. cell h c = Inr (cell_text h c)"
    by (simp add: list_all_iff cell_converts)
  then have "array_map (cell h) r = Inr (map (cell_text h) r)" by (rule array_map_total)
  then show ?thesis by (simp add: join_row_def line_of_def)
qed

section \<open>Properties of the derived views\<close>

lemma insort_by_key:
  "\<forall>y \<in> set ys. (c x y \<le> 0) = (f x \<le> f y) \<Longrightarrow> insort_by c x ys = insort_key f x ys"
  by (induction ys) auto

lemma sort_by_key:
  "\<forall>x \<in> set xs. \<forall>y \<in> set xs. (c x y \<le> 0) = (f x \<le> f y) \<Longrightarrow> sort_by c xs = sort_key f xs"
proof (induction xs)
  case Nil
  then show ?case by (simp add: sort_by_def)
next
  case (Cons x xs)
  then have IH: "sort_by c xs = sort_key f xs" by simp
  have "insort_by c x (sort_key f xs) = insort_key f x (sort_key f xs)"
    using Cons.prems by (intro insort_by_key) simp
  then show ?case using IH by (simp add: sort_by_def)
qed

lemma has_date_not_null: "has_date e \<Longrightarrow> e \<noteq> JNull"
  by (auto simp: has_date_def)

lemma has_date_prop: "has_date e \<Longrightarrow> prop_of e ''date'' = Some (JStr (date_of e))"
  by (auto simp: has_date_def date_of_def split: option.splits json.splits)

lemma byDate_dated:
  "has_date a \<Longrightarrow> has_date b \<Longrightarrow> byDate h a b = Inr (localeCompare h (date_of a) (date_of b))"
  by (simp add: byDate_def has_date_not_null has_date_prop)

lemma sort_key_short: "length xs < 2 \<Longrightarrow> sort_key f xs = xs"
  by (cases xs; cases "tl xs") auto

lemma array_sort_dated:
  assumes "list_all has_date xs" and "collates h (map date_of xs)"
  shows "array_sort (byDate h) xs = Inr (sort_key date_of xs)"
proof (cases "length xs < 2")
  case True
  then show ?thesis by (simp add: array_sort_def sort_key_short)
next
  case False
  have ok: "\<forall>a \<in> set xs. \<forall>b \<in> set xs. byDate h a b = Inr (localeCompare h (date_of a) (date_of b))"
    using assms(1) by (auto simp: list_all_iff byDate_dated)
  then have noerr: "\<not> list_ex (\<lambda>a. list_ex (\<lambda>b. isl (byDate h a b)) xs) xs"
    by (auto simp: list_ex_iff)
  have agree: "\<forall>a \<in> set xs. \<forall>b \<in> set xs.
      ((case byDate h a b of Inl e \<Rightarrow> 0 | Inr n \<Rightarrow> n) \<le> 0) = (date_of a \<le> date_of b)"
    using ok assms(2) by (auto simp: collates_def list_all_iff)
  show ?thesis using False noerr sort_by_key [OF agree] by (simp add: array_sort_def)
qed

lemma point_dated: "has_date e \<Longrightarrow> numeric_ok e \<Longrightarrow> point h e = Inr (point_of h e)"
  by (simp add: point_def point_of_def has_date_not_null has_date_prop numeric_ok_def
      Number_converts)

lemma point_trap: "has_date e \<Longrightarrow> \<not> numeric_ok e \<Longrightarrow> point h e = Inl TypeError"
  by (auto simp: point_def has_date_not_null has_date_prop numeric_ok_def Number_converts)

lemma array_map_fails:
  "\<forall>x \<in> set xs. \<forall>err. f x = Inl err \<longrightarrow> err = TypeError \<Longrightarrow> \<exists>x \<in> set xs. isl (f x) \<Longrightarrow>
   array_map f xs = Inl TypeError"
proof (induction xs)
  case Nil
  then show ?case by simp
next
  case (Cons x xs)
  show ?case
  proof (cases "f x")
    case (Inl err)
    with Cons.prems(1) show ?thesis by simp
  next
    case (Inr y)
    with Cons.prems have "\<exists>x \<in> set xs. isl (f x)" by auto
    with Cons.IH Cons.prems(1) have "array_map f xs = Inl TypeError" by simp
    with Inr show ?thesis by simp
  qed
qed

lemma daysData_dated:
  assumes "list_all has_date (map snd es)" and "collates h (map date_of (map snd es))"
    and "list_all numeric_ok (map snd es)"
  shows "daysData h es = Inr (map (point_of h) (sort_key date_of (map snd es)))"
proof -
  have "\<forall>e \<in> set (sort_key date_of (map snd es)). point h e = Inr (point_of h e)"
    using assms(1,3) by (auto simp: list_all_iff point_dated)
  then have "array_map (point h) (sort_key date_of (map snd es)) =
      Inr (map (point_of h) (sort_key date_of (map snd es)))"
    by (rule array_map_total)
  then show ?thesis
    by (simp add: daysData_def array_sort_dated [OF assms(1,2)])
qed

lemma daysData_trap:
  assumes "list_all has_date (map snd es)" and "collates h (map date_of (map snd es))"
    and "\<not> list_all numeric_ok (map snd es)"
  shows "daysData h es = Inl TypeError"
proof -
  have a: "\<forall>e \<in> set (sort_key date_of (map snd es)). \<forall>err. point h e = Inl err \<longrightarrow> err = TypeError"
    using assms(1) by (auto simp: list_all_iff point_def has_date_not_null has_date_prop
        Number_converts split: if_splits)
  from assms(3) obtain e where e: "e \<in> set (map snd es)" "\<not> numeric_ok e"
    by (auto simp: list_all_iff)
  from e(1) assms(1) have "has_date e" by (auto simp: list_all_iff)
  with e(2) have "point h e = Inl TypeError" by (simp add: point_trap)
  then have "isl (point h e)" by simp
  moreover have "e \<in> set (sort_key date_of (map snd es))" using e(1) by simp
  ultimately have b: "\<exists>e \<in> set (sort_key date_of (map snd es)). isl (point h e)"
    by blast
  from a b have "array_map (point h) (sort_key date_of (map snd es)) = Inl TypeError"
    by (rule array_map_fails)
  then show ?thesis
    by (simp add: daysData_def array_sort_dated [OF assms(1,2)])
qed

lemma notes_text_ok: "notes_ok e \<Longrightarrow> notes_text (prop_of e ''notes'') = Inr (newlines_to_spaces (notes_of e))"
  by (cases "prop_of e ''notes''")
     (auto simp: notes_ok_def notes_text_def notes_of_def newlines_to_spaces_def split: json.splits)

lemma csvRow_ok: "e \<noteq> JNull \<Longrightarrow> notes_ok e \<Longrightarrow> csvRow e = Inr (row_of e)"
  by (simp add: csvRow_def row_of_def notes_text_ok)

lemma csvRows_dated:
  assumes "list_all has_date (map snd es)" and "collates h (map date_of (map snd es))"
    and "list_all notes_ok (map snd es)"
  shows "csvRows h es = Inr (header # map row_of (sort_key date_of (map snd es)))"
proof -
  have "\<forall>e \<in> set (sort_key date_of (map snd es)). csvRow e = Inr (row_of e)"
    using assms(1,3) by (auto simp: list_all_iff csvRow_ok has_date_not_null)
  then have "array_map csvRow (sort_key date_of (map snd es)) =
      Inr (map row_of (sort_key date_of (map snd es)))"
    by (rule array_map_total)
  then show ?thesis
    by (simp add: csvRows_def array_sort_dated [OF assms(1,2)])
qed

lemma header_converts: "list_all conv_opt header"
  by (simp add: header_def)

lemma exportCSV_dated:
  assumes "list_all has_date (map snd es)" and "collates h (map date_of (map snd es))"
    and "list_all notes_ok (map snd es)" and "list_all cells_ok (map snd es)"
  shows "exportCSV h es =
    Inr (join [CHR 0x0A] (map (line_of h) (header # map row_of (sort_key date_of (map snd es)))))"
proof -
  have "\<forall>r \<in> set (header # map row_of (sort_key date_of (map snd es))).
      join_row h r = Inr (line_of h r)"
    using assms(4) header_converts by (auto simp: list_all_iff cells_ok_def join_row_converts)
  then have "array_map (join_row h) (header # map row_of (sort_key date_of (map snd es))) =
      Inr (map (line_of h) (header # map row_of (sort_key date_of (map snd es))))"
    by (rule array_map_total)
  then show ?thesis
    by (simp add: exportCSV_def csvRows_dated [OF assms(1,2,3)])
qed

lemma join_row_trap: "\<not> list_all conv_opt r \<Longrightarrow> join_row h r = Inl TypeError"
proof -
  assume "\<not> list_all conv_opt r"
  then have "\<exists>c \<in> set r. isl (cell h c)" by (auto simp: list_all_iff cell_converts)
  moreover have "\<forall>c \<in> set r. \<forall>err. cell h c = Inl err \<longrightarrow> err = TypeError"
    by (simp add: cell_converts)
  ultimately have "array_map (cell h) r = Inl TypeError" by (intro array_map_fails)
  then show ?thesis by (simp add: join_row_def)
qed

lemma exportCSV_trap:
  assumes "list_all has_date (map snd es)" and "collates h (map date_of (map snd es))"
    and "list_all notes_ok (map snd es)" and "\<not> list_all cells_ok (map snd es)"
  shows "exportCSV h es = Inl TypeError"
proof -
  let ?rows = "header # map row_of (sort_key date_of (map snd es))"
  from assms(4) obtain e where e: "e \<in> set (map snd es)" "\<not> list_all conv_opt (row_of e)"
    by (auto simp: list_all_iff cells_ok_def)
  from e(2) have "isl (join_row h (row_of e))" by (simp add: join_row_trap)
  moreover have "row_of e \<in> set ?rows" using e(1) by simp
  ultimately have a: "\<exists>r \<in> set ?rows. isl (join_row h r)" by blast
  have b: "\<forall>r \<in> set ?rows. \<forall>err. join_row h r = Inl err \<longrightarrow> err = TypeError"
  proof (intro ballI allI impI)
    fix r err assume "join_row h r = Inl err"
    then show "err = TypeError"
      by (cases "list_all conv_opt r") (simp_all add: join_row_converts join_row_trap)
  qed
  from b a have "array_map (join_row h) ?rows = Inl TypeError" by (rule array_map_fails)
  then show ?thesis
    by (simp add: exportCSV_def csvRows_dated [OF assms(1,2,3)])
qed

lemma line_of_cells:
  "list_all conv_opt r \<Longrightarrow>
   \<exists>ss. list_all2 (\<lambda>c s. cell h c = Inr s) r ss \<and> line_of h r = join '','' ss"
  by (rule exI [of _ "map (cell_text h) r"])
     (simp add: list_all2_map2 list_all2_same list_all_iff cell_converts line_of_def)

lemma lines_of_rows:
  "list_all (list_all conv_opt) rows \<Longrightarrow>
   list_all2 (\<lambda>r l. \<exists>ss. list_all2 (\<lambda>c s. cell h c = Inr s) r ss \<and> l = join '','' ss)
     rows (map (line_of h) rows)"
  by (simp add: list_all2_map2 list_all2_same list_all_iff line_of_cells)

lemma exportCSV_outcome:
  assumes "list_all has_date (map snd es)" and "collates h (map date_of (map snd es))"
    and "list_all notes_ok (map snd es)"
  shows "list_all (list_all conv_opt) (map row_of (sort_key date_of (map snd es))) \<Longrightarrow>
      \<exists>lines.
        list_all2 (\<lambda>r l. \<exists>ss. list_all2 (\<lambda>c s. cell h c = Inr s) r ss \<and> l = join '','' ss)
          (header # map row_of (sort_key date_of (map snd es))) lines \<and>
        exportCSV h es = Inr (join [CHR 0x0A] lines)"
    and "\<not> list_all (list_all conv_opt) (map row_of (sort_key date_of (map snd es))) \<Longrightarrow>
      exportCSV h es = Inl TypeError"
proof -
  let ?rows = "header # map row_of (sort_key date_of (map snd es))"
  have eq: "list_all (list_all conv_opt) (map row_of (sort_key date_of (map snd es))) =
      list_all cells_ok (map snd es)"
    by (simp add: list_all_iff cells_ok_def)
  {
    assume ok: "list_all (list_all conv_opt) (map row_of (sort_key date_of (map snd es)))"
    then have "list_all (list_all conv_opt) ?rows" using header_converts by simp
    then have 1: "list_all2
        (\<lambda>r l. \<exists>ss. list_all2 (\<lambda>c s. cell h c = Inr s) r ss \<and> l = join '','' ss)
        ?rows (map (line_of h) ?rows)"
      by (rule lines_of_rows)
    from ok eq have "list_all cells_ok (map snd es)" by simp
    with assms have 2: "exportCSV h es = Inr (join [CHR 0x0A] (map (line_of h) ?rows))"
      by (rule exportCSV_dated)
    from 1 2 show "\<exists>lines.
        list_all2 (\<lambda>r l. \<exists>ss. list_all2 (\<lambda>c s. cell h c = Inr s) r ss \<and> l = join '','' ss)
          ?rows lines \<and>
        exportCSV h es = Inr (join [CHR 0x0A] lines)"
      by (intro exI [of _ "map (line_of h) ?rows"] conjI)
  }
  {
    assume "\<not> list_all (list_all conv_opt) (map row_of (sort_key date_of (map snd es)))"
    with eq have "\<not> list_all cells_ok (map snd es)" by simp
    with assms show "exportCSV h es = Inl TypeError" by (rule exportCSV_trap)
  }
qed

lemma no_newline: "CHR 0x0A \<notin> set (newlines_to_spaces s)"
  by (auto simp: newlines_to_spaces_def)

section \<open>Properties of the calendar and of the demo data\<close>

lemma years_from_sound:
  "years_from y n = (y', r) \<Longrightarrow>
     y \<le> y' \<and> r < DaysInYear y' \<and> n = sum_list (map DaysInYear [y..<y']) + r"
proof (induction y n rule: years_from.induct)
  case (1 y n)
  show ?case
  proof (cases "n < DaysInYear y")
    case True
    with "1.prems" show ?thesis by (simp add: years_from.simps [of y n])
  next
    case False
    with "1.prems" have rec: "years_from (Suc y) (n - DaysInYear y) = (y', r)"
      by (simp add: years_from.simps [of y n])
    from "1.IH" [OF False rec] have a: "Suc y \<le> y'" and b: "r < DaysInYear y'"
      and c: "n - DaysInYear y = sum_list (map DaysInYear [Suc y..<y']) + r" by simp_all
    from a have "[y..<y'] = y # [Suc y..<y']" by (simp add: upt_conv_Cons)
    with a b c False show ?thesis by simp
  qed
qed

lemma months_from_sound:
  "months_from ls m n = (m', r) \<Longrightarrow> n < sum_list ls \<Longrightarrow>
     m \<le> m' \<and> m' - m < length ls \<and> r < ls ! (m' - m) \<and> n = sum_list (take (m' - m) ls) + r"
proof (induction ls arbitrary: m n)
  case Nil
  then show ?case by simp
next
  case (Cons l ls)
  show ?case
  proof (cases "n < l")
    case True
    with Cons.prems show ?thesis by simp
  next
    case False
    with Cons.prems have rec: "months_from ls (Suc m) (n - l) = (m', r)"
      and lt: "n - l < sum_list ls" by auto
    from Cons.IH [OF rec lt] have a: "Suc m \<le> m'" and b: "m' - Suc m < length ls"
      and c: "r < ls ! (m' - Suc m)" and d: "n - l = sum_list (take (m' - Suc m) ls) + r"
      by simp_all
    from a have e: "m' - m = Suc (m' - Suc m)" by simp
    show ?thesis using a b c d False by (simp add: e)
  qed
qed

lemma sum_month_lengths: "sum_list (month_lengths y) = DaysInYear y"
  by (simp add: month_lengths_def DaysInYear_def)

lemma civil_inverse: "day_number (civil n) = n"
proof -
  obtain y r where yr: "years_from 1970 n = (y, r)" by (cases "years_from 1970 n")
  obtain m d where md: "months_from (month_lengths y) 0 r = (m, d)"
    by (cases "months_from (month_lengths y) 0 r")
  from years_from_sound [OF yr] have r: "r < DaysInYear y"
    and n: "n = sum_list (map DaysInYear [1970..<y]) + r" by simp_all
  from r have "r < sum_list (month_lengths y)" by (simp add: sum_month_lengths)
  from months_from_sound [OF md this] have "r = sum_list (take m (month_lengths y)) + d"
    by simp
  with n have "day_number (y, Suc m, Suc d) = n" by (simp add: day_number_def)
  moreover have "civil n = (y, Suc m, Suc d)" by (simp add: civil_def yr md)
  ultimately show ?thesis by simp
qed

lemma civil_inj: "civil a = civil b \<Longrightarrow> a = b"
  by (metis civil_inverse)

lemma sum_years_lower: "y \<le> y' \<Longrightarrow> 365 * (y' - y) \<le> sum_list (map DaysInYear [y..<y'])"
proof (induction y' )
  case 0
  then show ?case by simp
next
  case (Suc y')
  show ?case
  proof (cases "y = Suc y'")
    case True
    then show ?thesis by simp
  next
    case False
    with Suc.prems have le: "y \<le> y'" by simp
    from Suc.IH [OF le] le show ?thesis by (simp add: DaysInYear_def Suc_diff_le)
  qed
qed

lemma civil_range:
  assumes "civil n = (y, m, d)"
  shows "1970 \<le> y \<and> 365 * (y - 1970) \<le> n \<and> 1 \<le> m \<and> m \<le> 12 \<and> 1 \<le> d \<and> d \<le> 31"
proof -
  obtain y0 r where yr: "years_from 1970 n = (y0, r)" by (cases "years_from 1970 n")
  obtain m0 d0 where md: "months_from (month_lengths y0) 0 r = (m0, d0)"
    by (cases "months_from (month_lengths y0) 0 r")
  from assms have y: "y = y0" and m: "m = Suc m0" and d: "d = Suc d0"
    by (simp_all add: civil_def yr md)
  from years_from_sound [OF yr] have le: "1970 \<le> y0" and r: "r < DaysInYear y0"
    and n: "n = sum_list (map DaysInYear [1970..<y0]) + r" by simp_all
  from r have "r < sum_list (month_lengths y0)" by (simp add: sum_month_lengths)
  from months_from_sound [OF md this] have m0: "m0 < 12" and d0: "d0 < month_lengths y0 ! m0"
    by (simp_all add: month_lengths_def)
  have len: "length (month_lengths y0) = 12" by (simp add: month_lengths_def)
  have "\<forall>l \<in> set (month_lengths y0). l \<le> 31" by (simp add: month_lengths_def)
  moreover have "month_lengths y0 ! m0 \<in> set (month_lengths y0)"
    using m0 len by (intro nth_mem) simp
  ultimately have "month_lengths y0 ! m0 \<le> 31" by blast
  with d0 have d31: "d0 < 31" by simp
  have "365 * (y0 - 1970) \<le> n" using sum_years_lower [OF le] n by simp
  with le m0 d31 show ?thesis by (simp add: y m d)
qed

lemma length_fixed: "length (fixed k n) = k"
  by (induction k arbitrary: n) simp_all

lemma fixed_inj: "n < 10 ^ k \<Longrightarrow> m < 10 ^ k \<Longrightarrow> fixed k n = fixed k m \<Longrightarrow> n = m"
proof (induction k arbitrary: n m)
  case 0
  then show ?case by simp
next
  case (Suc k)
  from Suc.prems(3) have a: "fixed k (n div 10) = fixed k (m div 10)"
    and b: "''0123456789'' ! (n mod 10) = ''0123456789'' ! (m mod 10)"
    by (simp_all add: length_fixed)
  have "n div 10 < 10 ^ k" "m div 10 < 10 ^ k"
    using Suc.prems(1,2) by (simp_all add: less_mult_imp_div_less mult.commute)
  from Suc.IH [OF this a] have "n div 10 = m div 10" .
  moreover from b have "n mod 10 = m mod 10" by (intro digit_nth_inj) simp_all
  ultimately show ?case by (metis div_mult_mod_eq)
qed

lemma iso_date_inj:
  assumes "y < 10000" "y' < 10000" "m < 100" "m' < 100" "d < 100" "d' < 100"
    and "iso_date (y, m, d) = iso_date (y', m', d')"
  shows "(y, m, d) = (y', m', d')"
proof -
  from assms(7) have "fixed 4 y = fixed 4 y'" "fixed 2 m = fixed 2 m'" "fixed 2 d = fixed 2 d'"
    by (simp_all add: iso_date_def length_fixed)
  then show ?thesis
    using assms(1-6) fixed_inj [of y 4 y'] fixed_inj [of m 2 m'] fixed_inj [of d 2 d']
    by simp
qed

lemma iso_day_inj:
  assumes "a < 2930950" and "b < 2930950" and "iso_day a = iso_day b"
  shows "a = b"
proof -
  obtain y m d where ca: "civil a = (y, m, d)" by (cases "civil a")
  obtain y' m' d' where cb: "civil b = (y', m', d')" by (cases "civil b")
  from civil_range [OF ca] assms(1) have ra: "y < 10000" "m < 100" "d < 100" by arith+
  from civil_range [OF cb] assms(2) have rb: "y' < 10000" "m' < 100" "d' < 100" by arith+
  from assms(3) have "iso_date (y, m, d) = iso_date (y', m', d')"
    by (simp add: iso_day_def ca cb)
  from iso_date_inj [OF ra(1) rb(1) ra(2) rb(2) ra(3) rb(3) this] have "civil a = civil b"
    by (simp add: ca cb)
  then show ?thesis by (rule civil_inj)
qed

lemma length_iso_day: "length (iso_day n) = 10"
  by (cases "civil n") (simp add: iso_day_def iso_date_def length_fixed)

lemma fmtDate_local_day: "fmtDate z t = iso_day (local_day z t)"
proof -
  have "length (iso_date (civil (local_day z t))) = 10"
    using length_iso_day [of "local_day z t"] by (simp add: iso_day_def)
  then show ?thesis
    by (simp add: fmtDate_def Let_def toISOString_def local_day_def LocalTime_def iso_day_def)
qed

lemma day_number_first: "civil n = (y, m, d) \<Longrightarrow> int (day_number (y, m, 1)) = int n - int d + 1"
proof -
  assume c: "civil n = (y, m, d)"
  from civil_range [OF c] have d: "1 \<le> d" by simp
  have "day_number (y, m, d) = n" using civil_inverse [of n] by (simp add: c)
  then have "day_number (y, m, 1) + (d - 1) = n" by (simp add: day_number_def)
  with d show ?thesis by arith
qed

lemma local_day_setDate:
  assumes "\<forall>x. local_day z (UTC z x) = nat (x div msPerDay)"
  shows "local_day z (setDate z t (getDate z t - int i)) = local_day z t - i"
proof -
  obtain y m d where c: "civil (local_day z t) = (y, m, d)" by (cases "civil (local_day z t)")
  define X where "X = (int (local_day z t) - int i) * msPerDay + LocalTime z t mod msPerDay"
  have a: "int (day_number (y, m, 1)) + (int d - int i) - 1 = int (local_day z t) - int i"
    using day_number_first [OF c] by arith
  have s: "setDate z t (getDate z t - int i) = UTC z X"
    by (simp only: setDate_def getDate_def c prod.case a X_def)
  have "0 \<le> LocalTime z t mod msPerDay" "LocalTime z t mod msPerDay < msPerDay"
    by (simp_all add: msPerDay_def)
  then have dv: "X div msPerDay = int (local_day z t) - int i"
    unfolding X_def by (simp add: msPerDay_def)
  have "local_day z (UTC z X) = nat (X div msPerDay)" using assms by blast
  then have "local_day z (setDate z t (getDate z t - int i)) = nat (int (local_day z t) - int i)"
    by (simp only: s dv)
  then show ?thesis by simp
qed

lemma fillDemo_loop_fold:
  assumes "\<forall>i<k. local_day z (now z i) = today"
    and "\<forall>x. local_day z (UTC z x) = nat (x div msPerDay)"
  shows "fillDemo_loop z r t k m =
           fold (\<lambda>kv. obj_set (fst kv) (snd kv)) (demo_pairs r t today k) m"
  using assms(1)
proof (induction k arbitrary: m)
  case 0
  then show ?case by (simp add: demo_pairs_def)
next
  case (Suc k)
  have key: "fmtDate z (setDate z (now z k) (getDate z (now z k) - int k)) = iso_day (today - k)"
    using Suc.prems by (simp add: fmtDate_local_day local_day_setDate [OF assms(2)])
  have IH: "\<And>m. fillDemo_loop z r t k m =
           fold (\<lambda>kv. obj_set (fst kv) (snd kv)) (demo_pairs r t today k) m"
    using Suc.IH Suc.prems by simp
  show ?case by (simp add: Let_def key IH demo_pairs_def)
qed

lemma distinct_demo_keys:
  assumes "k \<le> Suc today" and "today < 2930950"
  shows "distinct (map fst (demo_pairs r t today k))"
proof -
  have "inj_on (\<lambda>i. iso_day (today - i)) (set (rev [0..<k]))"
  proof (rule inj_onI)
    fix i j assume i: "i \<in> set (rev [0..<k])" and j: "j \<in> set (rev [0..<k])"
      and e: "iso_day (today - i) = iso_day (today - j)"
    from assms(2) have "today - i < 2930950" "today - j < 2930950" by simp_all
    from iso_day_inj [OF this e] have "today - i = today - j" .
    with i j assms(1) show "i = j" by auto
  qed
  then show ?thesis by (simp add: demo_pairs_def comp_def distinct_map)
qed

lemma fillDemo_entries:
  assumes "\<forall>i<28. local_day z (now z i) = today"
    and "\<forall>x. local_day z (UTC z x) = nat (x div msPerDay)"
    and "27 \<le> today" and "today < 2930950"
  shows "entries (fillDemo h z r t s) = demo_pairs r t today 28"
proof -
  have d: "distinct (map fst ([] @ demo_pairs r t today 28))"
    using distinct_demo_keys [of 28 today r t] assms(3,4) by simp
  show ?thesis
    by (simp add: fillDemo_def Let_def fillDemo_loop_fold [OF assms(1,2)]
        fold_obj_set_fresh [OF d])
qed

lemma map_rev_upt:
  "k \<le> Suc n \<Longrightarrow> map (\<lambda>i. f (n - i)) (rev [0..<k]) = map f [Suc n - k..<Suc n]"
proof (induction k)
  case 0
  then show ?case by simp
next
  case (Suc k)
  then have k: "k \<le> n" by simp
  have "n - k < Suc n" by simp
  from upt_conv_Cons [OF this] have "[n - k..<Suc n] = (n - k) # [Suc (n - k)..<Suc n]" .
  moreover have "Suc (n - k) = Suc n - k" using k by simp
  ultimately have "[Suc n - Suc k..<Suc n] = (n - k) # [Suc n - k..<Suc n]" by simp
  with Suc show ?case by simp
qed

lemma demo_keys:
  "k \<le> Suc today \<Longrightarrow> map fst (demo_pairs r t today k) = map iso_day [Suc today - k..<Suc today]"
  using map_rev_upt [of k today iso_day] by (simp add: demo_pairs_def comp_def)

lemma demo_lookup:
  assumes "k \<le> Suc today" and "today < 2930950" and "i < k"
  shows "map_of (demo_pairs r t today k) (iso_day (today - i)) =
           Some (demoEntry r t (iso_day (today - i)) i)"
proof -
  have "(iso_day (today - i), demoEntry r t (iso_day (today - i)) i) \<in> set (demo_pairs r t today k)"
    using assms(3) by (auto simp: demo_pairs_def)
  then show ?thesis
    using distinct_demo_keys [OF assms(1,2), of r t] by simp
qed

lemma years_from_19787: "years_from 1970 19787 = (2024, 64)"
  by (simp add: years_from.simps leap_def DaysInYear_def)

lemma fixed_2: "fixed 2 n = [''0123456789'' ! (n div 10 mod 10), ''0123456789'' ! (n mod 10)]"
proof -
  have "fixed (Suc (Suc 0)) n = [''0123456789'' ! (n div 10 mod 10), ''0123456789'' ! (n mod 10)]"
    by simp
  then show ?thesis by (simp only: numeral_2_eq_2)
qed

lemma fixed_4:
  "fixed 4 n = [''0123456789'' ! (n div 10 div 10 div 10 mod 10), ''0123456789'' ! (n div 10 div 10 mod 10),
                ''0123456789'' ! (n div 10 mod 10), ''0123456789'' ! (n mod 10)]"
proof -
  have "fixed (Suc (Suc (Suc (Suc 0)))) n =
      [''0123456789'' ! (n div 10 div 10 div 10 mod 10), ''0123456789'' ! (n div 10 div 10 mod 10),
       ''0123456789'' ! (n div 10 mod 10), ''0123456789'' ! (n mod 10)]"
    by simp
  moreover have "(4 :: nat) = Suc (Suc (Suc (Suc 0)))" by simp
  ultimately show ?thesis by (simp only:)
qed

lemma iso_day_19787: "iso_day 19787 = ''2024-03-05''"
  by (simp add: iso_day_def civil_def years_from_19787 leap_def month_lengths_def iso_date_def fixed_2 fixed_4)

lemma years_from_19786: "years_from 1970 19786 = (2024, 63)"
  by (simp add: years_from.simps leap_def DaysInYear_def)

lemma iso_day_19786: "iso_day 19786 = ''2024-03-04''"
  by (simp add: iso_day_def civil_def years_from_19786 leap_def month_lengths_def iso_date_def fixed_2 fixed_4)

lemma years_from_19760: "years_from 1970 19760 = (2024, 37)"
  by (simp add: years_from.simps leap_def DaysInYear_def)

lemma iso_day_19760: "iso_day 19760 = ''2024-02-07''"
  by (simp add: iso_day_def civil_def years_from_19760 leap_def month_lengths_def iso_date_def fixed_2 fixed_4)

section \<open>The claims\<close>

text \<open>
  C1 (amended). For every date \<open>d\<close>, store and patch, \<open>upsert\<close> gives a store that is the
  old one except at \<open>d\<close>, where the entry is the shallow merge of the prior entry (the
  fresh default entry for \<open>d\<close> when there is none) with the patch: a field of the patch
  replaces the field of the entry as a whole. Sibling medication fields are kept by the
  patches the medication toggles build (\<open>medsPatch\<close>): they carry the whole \<open>meds\<close> object
  with the one flag replaced.
\<close>

theorem upsert_merge:
  assumes "is_date d" and "wf (JObj es)" and "distinct (map fst patch)"
  shows "\<exists>next. map_of (upsert t es d patch) d = Some (JObj next) \<and>
           (\<forall>k. map_of next k =
              (case map_of patch k of
                 None \<Rightarrow> map_of (spread (Some (entry t es d))) k
               | Some v \<Rightarrow> Some v)) \<and>
           (\<forall>d'. d' \<noteq> d \<longrightarrow> map_of (upsert t es d patch) d' = map_of es d') \<and>
           (\<forall>v. map_of es d = Some v \<and> truthy (Some v) \<longrightarrow> entry t es d = v) \<and>
           (map_of es d = None \<longrightarrow>
              entry t es d = JObj (obj_set ''date'' (JStr d) (defaultEntry t))) \<and>
           (\<forall>part j v p. medsPatch part j v (entry t es d) = Inr p \<longrightarrow>
              (\<forall>k. field_name k \<longrightarrow>
                 path (map_of (upsert t es d p) d) [''meds'', part, k] =
                   (if k = j then Some (JBool v)
                    else path (Some (entry t es d)) [''meds'', part, k])) \<and>
              (\<forall>q. field_name q \<longrightarrow> q \<noteq> part \<longrightarrow>
                 path (map_of (upsert t es d p) d) [''meds'', q] =
                   path (Some (entry t es d)) [''meds'', q]))"
proof -
  have es: "distinct (map fst es)" using assms(2) by simp
  have wfe: "wf (entry t es d)" using assms(2) by (rule wf_entry)
  have A: "map_of (upsert t es d patch) d =
      Some (JObj (assign patch (assign (spread (Some (entry t es d))) [])))"
    using assms(2,3) by (rule upsert_at)
  have B: "\<forall>k. map_of (assign patch (assign (spread (Some (entry t es d))) [])) k =
      (case map_of patch k of
         None \<Rightarrow> map_of (spread (Some (entry t es d))) k
       | Some v \<Rightarrow> Some v)"
    using merged_field [OF wfe assms(3)] by blast
  have C: "\<forall>d'. d' \<noteq> d \<longrightarrow> map_of (upsert t es d patch) d' = map_of es d'"
    using upsert_other [OF es] by blast
  have D: "\<forall>v. map_of es d = Some v \<and> truthy (Some v) \<longrightarrow> entry t es d = v"
    by (simp add: entry_def Let_def)
  have E: "map_of es d = None \<longrightarrow>
      entry t es d = JObj (obj_set ''date'' (JStr d) (defaultEntry t))"
    by (simp add: entry_def Let_def assign_Nil defaultEntry_def)
  have F: "\<forall>part j v p. medsPatch part j v (entry t es d) = Inr p \<longrightarrow>
              (\<forall>k. field_name k \<longrightarrow>
                 path (map_of (upsert t es d p) d) [''meds'', part, k] =
                   (if k = j then Some (JBool v)
                    else path (Some (entry t es d)) [''meds'', part, k])) \<and>
              (\<forall>q. field_name q \<longrightarrow> q \<noteq> part \<longrightarrow>
                 path (map_of (upsert t es d p) d) [''meds'', q] =
                   path (Some (entry t es d)) [''meds'', q])"
    using upsert_medsPatch [OF assms(2)] by blast
  show ?thesis
    by (rule exI [of _ "assign patch (assign (spread (Some (entry t es d))) [])"])
       (intro conjI A B C D E F)
qed

text \<open>
  The merge is shallow: a patch that holds only \<open>meds.am.multaq\<close> clears
  \<open>meds.am.edoxaban\<close>.
\<close>

theorem upsert_nested_counterexample:
  "path (map_of example_store ''2024-03-05'') [''meds'', ''am'', ''edoxaban''] = Some (JBool True) \<and>
   path (map_of (upsert ''2024-03-06'' example_store ''2024-03-05''
                   [(''meds'', JObj [(''am'', JObj [(''multaq'', JBool True)])])]) ''2024-03-05'')
        [''meds'', ''am'', ''edoxaban''] = None"
  by (simp add: upsert_def entry_def example_store_def example_entry_def assign_def)

theorem upsert_merge_witness:
  "is_date ''2024-03-05'' \<and> wf (JObj example_store) \<and>
   distinct (map fst [(''pulse'', JStr ''75'')]) \<and>
   map_of (upsert ''2024-03-06'' example_store ''2024-03-05'' [(''pulse'', JStr ''75'')]) ''2024-03-04''
     = Some (example_entry ''2024-03-04'') \<and>
   path (map_of (upsert ''2024-03-06'' example_store ''2024-03-05'' [(''pulse'', JStr ''75'')])
          ''2024-03-05'') [''pulse''] = Some (JStr ''75'') \<and>
   medsPatch ''am'' ''multaq'' True (entry ''2024-03-06'' example_store ''2024-03-05'') =
     Inr [(''meds'', JObj
             [(''am'', JObj [(''multaq'', JBool True), (''edoxaban'', JBool True),
                             (''bisoprolol'', JBool False)]),
              (''pm'', JObj [(''multaq'', JBool True)])])] \<and>
   path (map_of (upsert ''2024-03-06'' example_store ''2024-03-05''
       [(''meds'', JObj
             [(''am'', JObj [(''multaq'', JBool True), (''edoxaban'', JBool True),
                             (''bisoprolol'', JBool False)]),
              (''pm'', JObj [(''multaq'', JBool True)])])]) ''2024-03-05'')
     [''meds'', ''am'', ''edoxaban''] = Some (JBool True)"
proof -
  have h1: "is_date ''2024-03-05''" by (simp add: is_date_def is_digit_def)
  have h2: "wf (JObj example_store)" by (simp add: example_store_def example_entry_def)
  have h3: "distinct (map fst [(''pulse'', JStr ''75'')])" by simp
  have mp: "medsPatch ''am'' ''multaq'' True (entry ''2024-03-06'' example_store ''2024-03-05'') =
     Inr [(''meds'', JObj
             [(''am'', JObj [(''multaq'', JBool True), (''edoxaban'', JBool True),
                             (''bisoprolol'', JBool False)]),
              (''pm'', JObj [(''multaq'', JBool True)])])]"
    by (simp add: medsPatch_def entry_def example_store_def example_entry_def assign_def)
  have fn: "field_name ''edoxaban''" by (simp add: field_name_def is_digit_def)
  have old: "path (Some (entry ''2024-03-06'' example_store ''2024-03-05''))
       [''meds'', ''am'', ''edoxaban''] = Some (JBool True)"
    by (simp add: entry_def example_store_def example_entry_def)
  have o2: "map_of example_store ''2024-03-04'' = Some (example_entry ''2024-03-04'')"
    by (simp add: example_store_def)
  from upsert_merge [OF h1 h2 h3, of "''2024-03-06''"]
  obtain nxt where n1: "map_of (upsert ''2024-03-06'' example_store ''2024-03-05''
        [(''pulse'', JStr ''75'')]) ''2024-03-05'' = Some (JObj nxt)"
    and n2: "\<forall>k. map_of nxt k =
        (case map_of [(''pulse'', JStr ''75'')] k of
           None \<Rightarrow> map_of (spread (Some (entry ''2024-03-06'' example_store ''2024-03-05''))) k
         | Some v \<Rightarrow> Some v)"
    and n3: "\<forall>d'. d' \<noteq> ''2024-03-05'' \<longrightarrow>
        map_of (upsert ''2024-03-06'' example_store ''2024-03-05'' [(''pulse'', JStr ''75'')]) d' =
        map_of example_store d'"
    and n4: "\<forall>part j v p.
        medsPatch part j v (entry ''2024-03-06'' example_store ''2024-03-05'') = Inr p \<longrightarrow>
        (\<forall>k. field_name k \<longrightarrow>
           path (map_of (upsert ''2024-03-06'' example_store ''2024-03-05'' p) ''2024-03-05'')
             [''meds'', part, k] =
           (if k = j then Some (JBool v)
            else path (Some (entry ''2024-03-06'' example_store ''2024-03-05''))
                   [''meds'', part, k])) \<and>
        (\<forall>q. field_name q \<longrightarrow> q \<noteq> part \<longrightarrow>
           path (map_of (upsert ''2024-03-06'' example_store ''2024-03-05'' p) ''2024-03-05'')
             [''meds'', q] =
           path (Some (entry ''2024-03-06'' example_store ''2024-03-05'')) [''meds'', q])"
    by blast
  have c1: "map_of (upsert ''2024-03-06'' example_store ''2024-03-05'' [(''pulse'', JStr ''75'')])
      ''2024-03-04'' = Some (example_entry ''2024-03-04'')"
    using n3 o2 by simp
  have c2: "path (map_of (upsert ''2024-03-06'' example_store ''2024-03-05''
      [(''pulse'', JStr ''75'')]) ''2024-03-05'') [''pulse''] = Some (JStr ''75'')"
    using n2 by (simp add: n1)
  have c3: "path (map_of (upsert ''2024-03-06'' example_store ''2024-03-05''
       [(''meds'', JObj
             [(''am'', JObj [(''multaq'', JBool True), (''edoxaban'', JBool True),
                             (''bisoprolol'', JBool False)]),
              (''pm'', JObj [(''multaq'', JBool True)])])]) ''2024-03-05'')
     [''meds'', ''am'', ''edoxaban''] = Some (JBool True)"
    using n4 [rule_format, OF mp, THEN conjunct1, rule_format, OF fn] old by simp
  from h1 h2 h3 c1 c2 mp c3 show ?thesis by (simp only: simp_thms)
qed

text \<open>
  C2 (amended). When the pulse, the systolic and the diastolic value convert to numbers,
  the low-blood-pressure flag is produced exactly when the parsed systolic and diastolic
  values are both truthy numbers and the systolic value is below 90 or the diastolic
  value is below 60. They convert for every entry that meets \<open>numeric_ok\<close>; for an entry
  that does not, the evaluation throws a TypeError and gives no flag at all.
\<close>

theorem dangerFlags_lowBP:
  assumes "e \<noteq> JNull"
  shows "(\<forall>p s d.
      Number h (prop_of e ''pulse'') = Inr p \<and> Number h (prop_of e ''bpSys'') = Inr s \<and>
      Number h (prop_of e ''bpDia'') = Inr d \<longrightarrow>
      (\<exists>fs. dangerFlags h e = Inr fs \<and>
         (LowBP \<in> set fs \<longleftrightarrow>
            truthy_num s \<and> truthy_num d \<and> (lt s (Fin 90) \<or> lt d (Fin 60))))) \<and>
    (numeric_ok e \<longrightarrow>
      (\<exists>p s d. Number h (prop_of e ''pulse'') = Inr p \<and>
         Number h (prop_of e ''bpSys'') = Inr s \<and> Number h (prop_of e ''bpDia'') = Inr d)) \<and>
    (\<not> numeric_ok e \<longrightarrow> dangerFlags h e = Inl TypeError)"
proof -
  have a: "\<forall>p s d.
      Number h (prop_of e ''pulse'') = Inr p \<and> Number h (prop_of e ''bpSys'') = Inr s \<and>
      Number h (prop_of e ''bpDia'') = Inr d \<longrightarrow>
      (\<exists>fs. dangerFlags h e = Inr fs \<and>
         (LowBP \<in> set fs \<longleftrightarrow>
            truthy_num s \<and> truthy_num d \<and> (lt s (Fin 90) \<or> lt d (Fin 60))))"
    using assms by (simp add: dangerFlags_def)
  have b: "numeric_ok e \<longrightarrow>
      (\<exists>p s d. Number h (prop_of e ''pulse'') = Inr p \<and>
         Number h (prop_of e ''bpSys'') = Inr s \<and> Number h (prop_of e ''bpDia'') = Inr d)"
    by (simp add: numeric_ok_def Number_converts)
  have c: "\<not> numeric_ok e \<longrightarrow> dangerFlags h e = Inl TypeError"
    using assms by (auto simp: dangerFlags_def numeric_ok_def Number_converts)
  from a b c show ?thesis by (intro conjI)
qed

theorem dangerFlags_lowBP_witness:
  "JObj [(''bpSys'', JStr ''85''), (''bpDia'', JStr ''55'')] \<noteq> JNull \<and>
   numeric_ok (JObj [(''bpSys'', JStr ''85''), (''bpDia'', JStr ''55'')]) \<and>
   Number plain_host (prop_of (JObj [(''bpSys'', JStr ''85''), (''bpDia'', JStr ''55'')]) ''pulse'')
     = Inr NaN \<and>
   Number plain_host (prop_of (JObj [(''bpSys'', JStr ''85''), (''bpDia'', JStr ''55'')]) ''bpSys'')
     = Inr (Fin 85) \<and>
   Number plain_host (prop_of (JObj [(''bpSys'', JStr ''85''), (''bpDia'', JStr ''55'')]) ''bpDia'')
     = Inr (Fin 55) \<and>
   dangerFlags plain_host (JObj [(''bpSys'', JStr ''85''), (''bpDia'', JStr ''55'')]) = Inr [LowBP] \<and>
   dangerFlags plain_host (JObj [(''bpSys'', JStr ''120''), (''bpDia'', JStr ''80'')]) = Inr [] \<and>
   dangerFlags plain_host (JObj [(''bpSys'', JStr ''85''), (''bpDia'', JStr [])]) = Inr [] \<and>
   trap_entry \<noteq> JNull \<and> \<not> numeric_ok trap_entry \<and>
   dangerFlags plain_host trap_entry = Inl TypeError"
proof -
  have n: "StringToNumber plain_host ''85'' = Fin 85"
     "StringToNumber plain_host ''55'' = Fin 55"
     "StringToNumber plain_host ''120'' = Fin 120"
     "StringToNumber plain_host ''80'' = Fin 80"
     "StringToNumber plain_host [] = Fin 0"
    by (simp_all add: plain_host_def plain_StringToNumber_def is_digit_def digits_value_def)
  have t: "trap_entry \<noteq> JNull" "\<not> numeric_ok trap_entry"
    by (simp_all add: trap_entry_def numeric_ok_def)
  from dangerFlags_lowBP [of "JObj [(''bpSys'', JStr ''85''), (''bpDia'', JStr ''55'')]" plain_host]
    dangerFlags_lowBP [of "JObj [(''bpSys'', JStr ''120''), (''bpDia'', JStr ''80'')]" plain_host]
    dangerFlags_lowBP [of "JObj [(''bpSys'', JStr ''85''), (''bpDia'', JStr [])]" plain_host]
    dangerFlags_lowBP [of trap_entry plain_host] t
  show ?thesis by (simp add: n dangerFlags_def truthy_num_def numeric_ok_def)
qed

text \<open>
  The two comparisons are joined by "or": 80/70 raises the flag although the diastolic
  value is not below 60.
\<close>

theorem dangerFlags_lowBP_counterexample:
  "dangerFlags plain_host (JObj [(''bpSys'', JStr ''80''), (''bpDia'', JStr ''70'')]) = Inr [LowBP] \<and>
   Number plain_host (prop_of (JObj [(''bpSys'', JStr ''80''), (''bpDia'', JStr ''70'')]) ''bpSys'')
     = Inr (Fin 80) \<and>
   Number plain_host (prop_of (JObj [(''bpSys'', JStr ''80''), (''bpDia'', JStr ''70'')]) ''bpDia'')
     = Inr (Fin 70) \<and>
   \<not> lt (Fin 70) (Fin 60)"
  by (simp add: dangerFlags_def truthy_num_def plain_host_def plain_StringToNumber_def
      is_digit_def digits_value_def)

text \<open>
  C3. The danger flags come in a fixed order: pulse out of [50, 110] (only when the pulse
  parses to a truthy number, so a parsed 0 raises no flag), low blood pressure, bleeding,
  syncope, dyspnea. This is so whenever the pulse, the systolic and the diastolic value
  convert to numbers, as they do for an entry that meets \<open>numeric_ok\<close>; for any other
  entry the evaluation throws a TypeError. The entry with pulse 120, blood pressure 80/50
  and bleeding gives the pulse message, the low-blood-pressure message and the bleeding
  message, in that order.
\<close>

theorem dangerFlags_priority:
  assumes "e \<noteq> JNull"
  shows "(\<forall>p s d.
      Number h (prop_of e ''pulse'') = Inr p \<and> Number h (prop_of e ''bpSys'') = Inr s \<and>
      Number h (prop_of e ''bpDia'') = Inr d \<longrightarrow>
      (\<exists>fs. dangerFlags h e = Inr fs \<and>
         subseq fs [PulseAbnormal, LowBP, Bleeding, Syncope, Dyspnea] \<and>
         (PulseAbnormal \<in> set fs \<longleftrightarrow> truthy_num p \<and> (lt p (Fin 50) \<or> lt (Fin 110) p)) \<and>
         (p = Fin 0 \<longrightarrow> PulseAbnormal \<notin> set fs) \<and>
         (LowBP \<in> set fs \<longleftrightarrow>
            truthy_num s \<and> truthy_num d \<and> (lt s (Fin 90) \<or> lt d (Fin 60))) \<and>
         (Bleeding \<in> set fs \<longleftrightarrow> truthy (prop_of e ''bleeding'')) \<and>
         (Syncope \<in> set fs \<longleftrightarrow> truthy (prop_of e ''syncope'')) \<and>
         (Dyspnea \<in> set fs \<longleftrightarrow> truthy (prop_of e ''dyspnea'')))) \<and>
    (numeric_ok e \<longrightarrow>
      (\<exists>p s d. Number h (prop_of e ''pulse'') = Inr p \<and>
         Number h (prop_of e ''bpSys'') = Inr s \<and> Number h (prop_of e ''bpDia'') = Inr d)) \<and>
    (\<not> numeric_ok e \<longrightarrow> dangerFlags h e = Inl TypeError) \<and>
    (StringToNumber h ''120'' = Fin 120 \<and> StringToNumber h ''80'' = Fin 80 \<and>
     StringToNumber h ''50'' = Fin 50 \<longrightarrow>
       dangerFlags h (JObj [(''pulse'', JStr ''120''), (''bpSys'', JStr ''80''),
                            (''bpDia'', JStr ''50''), (''bleeding'', JBool True)])
         = Inr [PulseAbnormal, LowBP, Bleeding]) \<and>
    dangerFlags h (JObj [(''pulse'', JNum (Fin 120)), (''bpSys'', JNum (Fin 80)),
                         (''bpDia'', JNum (Fin 50)), (''bleeding'', JBool True)])
      = Inr [PulseAbnormal, LowBP, Bleeding]"
proof -
  have a: "\<forall>p s d.
      Number h (prop_of e ''pulse'') = Inr p \<and> Number h (prop_of e ''bpSys'') = Inr s \<and>
      Number h (prop_of e ''bpDia'') = Inr d \<longrightarrow>
      (\<exists>fs. dangerFlags h e = Inr fs \<and>
         subseq fs [PulseAbnormal, LowBP, Bleeding, Syncope, Dyspnea] \<and>
         (PulseAbnormal \<in> set fs \<longleftrightarrow> truthy_num p \<and> (lt p (Fin 50) \<or> lt (Fin 110) p)) \<and>
         (p = Fin 0 \<longrightarrow> PulseAbnormal \<notin> set fs) \<and>
         (LowBP \<in> set fs \<longleftrightarrow>
            truthy_num s \<and> truthy_num d \<and> (lt s (Fin 90) \<or> lt d (Fin 60))) \<and>
         (Bleeding \<in> set fs \<longleftrightarrow> truthy (prop_of e ''bleeding'')) \<and>
         (Syncope \<in> set fs \<longleftrightarrow> truthy (prop_of e ''syncope'')) \<and>
         (Dyspnea \<in> set fs \<longleftrightarrow> truthy (prop_of e ''dyspnea'')))"
    using assms by (simp add: dangerFlags_def truthy_num_def)
  have b: "numeric_ok e \<longrightarrow>
      (\<exists>p s d. Number h (prop_of e ''pulse'') = Inr p \<and>
         Number h (prop_of e ''bpSys'') = Inr s \<and> Number h (prop_of e ''bpDia'') = Inr d)"
    by (simp add: numeric_ok_def Number_converts)
  have c: "\<not> numeric_ok e \<longrightarrow> dangerFlags h e = Inl TypeError"
    using assms by (auto simp: dangerFlags_def numeric_ok_def Number_converts)
  have d: "StringToNumber h ''120'' = Fin 120 \<and> StringToNumber h ''80'' = Fin 80 \<and>
     StringToNumber h ''50'' = Fin 50 \<longrightarrow>
       dangerFlags h (JObj [(''pulse'', JStr ''120''), (''bpSys'', JStr ''80''),
                            (''bpDia'', JStr ''50''), (''bleeding'', JBool True)])
         = Inr [PulseAbnormal, LowBP, Bleeding]"
    by (simp add: dangerFlags_def truthy_num_def)
  have e: "dangerFlags h (JObj [(''pulse'', JNum (Fin 120)), (''bpSys'', JNum (Fin 80)),
                         (''bpDia'', JNum (Fin 50)), (''bleeding'', JBool True)])
      = Inr [PulseAbnormal, LowBP, Bleeding]"
    by (simp add: dangerFlags_def truthy_num_def)
  from a b c d e show ?thesis by (intro conjI)
qed

theorem dangerFlags_priority_witness:
  "JObj [(''pulse'', JStr ''120''), (''bpSys'', JStr ''80''),
         (''bpDia'', JStr ''50''), (''bleeding'', JBool True)] \<noteq> JNull \<and>
   numeric_ok (JObj [(''pulse'', JStr ''120''), (''bpSys'', JStr ''80''),
         (''bpDia'', JStr ''50''), (''bleeding'', JBool True)]) \<and>
   StringToNumber plain_host ''120'' = Fin 120 \<and> StringToNumber plain_host ''80'' = Fin 80 \<and>
   StringToNumber plain_host ''50'' = Fin 50 \<and>
   dangerFlags plain_host (JObj [(''pulse'', JStr ''120''), (''bpSys'', JStr ''80''),
                            (''bpDia'', JStr ''50''), (''bleeding'', JBool True)])
         = Inr [PulseAbnormal, LowBP, Bleeding] \<and>
   dangerFlags plain_host (JObj [(''pulse'', JStr ''0''), (''syncope'', JBool True),
                                 (''dyspnea'', JBool True)]) = Inr [Syncope, Dyspnea] \<and>
   trap_entry \<noteq> JNull \<and> \<not> numeric_ok trap_entry \<and>
   dangerFlags plain_host trap_entry = Inl TypeError"
proof -
  have n: "StringToNumber plain_host ''120'' = Fin 120" "StringToNumber plain_host ''80'' = Fin 80"
    "StringToNumber plain_host ''50'' = Fin 50" "StringToNumber plain_host ''0'' = Fin 0"
    by (simp_all add: plain_host_def plain_StringToNumber_def is_digit_def digits_value_def)
  have z: "dangerFlags plain_host (JObj [(''pulse'', JStr ''0''), (''syncope'', JBool True),
                                 (''dyspnea'', JBool True)]) = Inr [Syncope, Dyspnea]"
    by (simp add: dangerFlags_def truthy_num_def n)
  have t: "trap_entry \<noteq> JNull" "\<not> numeric_ok trap_entry"
    by (simp_all add: trap_entry_def numeric_ok_def)
  have k: "numeric_ok (JObj [(''pulse'', JStr ''120''), (''bpSys'', JStr ''80''),
         (''bpDia'', JStr ''50''), (''bleeding'', JBool True)])"
    by (simp add: numeric_ok_def)
  from dangerFlags_priority [of "JObj [(''pulse'', JStr ''120''), (''bpSys'', JStr ''80''),
         (''bpDia'', JStr ''50''), (''bleeding'', JBool True)]" plain_host]
    dangerFlags_priority [of trap_entry plain_host] n z t k
  show ?thesis by simp
qed

text \<open>
  C4 (amended). \<open>loadEntries\<close> never raises. It gives the empty object when the key is
  missing, when the stored text is empty, when the text is not JSON, and when the text is
  JSON for null, a boolean, a number or a string; a JSON object or array is returned as
  parsed.
\<close>

theorem loadEntries_never_raises:
  "(\<exists>v. loadEntries h st = Inr v) \<and>
   (st STORAGE_KEY = None \<longrightarrow> loadEntries h st = Inr (JObj [])) \<and>
   (st STORAGE_KEY = Some [] \<longrightarrow> loadEntries h st = Inr (JObj [])) \<and>
   (\<forall>raw e. st STORAGE_KEY = Some raw \<and> JSON_parse h raw = Inl e \<longrightarrow>
      loadEntries h st = Inr (JObj [])) \<and>
   (\<forall>raw v. st STORAGE_KEY = Some raw \<and> raw \<noteq> [] \<and> JSON_parse h raw = Inr v \<longrightarrow>
      loadEntries h st =
        Inr (case v of JObj kvs \<Rightarrow> v | JArr xs \<Rightarrow> v | _ \<Rightarrow> JObj []))"
  by (auto simp: loadEntries_def loadEntries_try_def typeof_def split: option.splits sum.splits json.splits)

theorem loadEntries_never_raises_witness:
  "loadEntries plain_host (Map.empty(STORAGE_KEY \<mapsto> ''7'')) = Inr (JObj []) \<and>
   loadEntries plain_host (Map.empty(STORAGE_KEY \<mapsto> ''{bad'')) = Inr (JObj []) \<and>
   loadEntries plain_host Map.empty = Inr (JObj []) \<and>
   loadEntries plain_host (Map.empty(STORAGE_KEY \<mapsto> ''{}'')) = Inr (JObj [])"
proof -
  have a: "JSON_parse plain_host ''7'' = Inr (JNum (Fin 7))"
    by (simp add: plain_host_def plain_parse_def)
  have b: "JSON_parse plain_host ''{bad'' = Inl SyntaxError"
    by (simp add: plain_host_def plain_parse_def)
  have c: "JSON_parse plain_host ''{}'' = Inr (JObj [])"
    by (simp add: plain_host_def plain_parse_def)
  from loadEntries_never_raises [of plain_host "Map.empty(STORAGE_KEY \<mapsto> ''7'')"]
    loadEntries_never_raises [of plain_host "Map.empty(STORAGE_KEY \<mapsto> ''{bad'')"]
    loadEntries_never_raises [of plain_host "Map.empty"]
    loadEntries_never_raises [of plain_host "Map.empty(STORAGE_KEY \<mapsto> ''{}'')"]
    a b c
  show ?thesis by simp
qed

text \<open>A stored JSON array is not an object, and it is returned, not the empty object.\<close>

theorem loadEntries_array_counterexample:
  "JSON_parse plain_host ''[7]'' = Inr (JArr [JNum (Fin 7)]) \<and>
   loadEntries plain_host (Map.empty(STORAGE_KEY \<mapsto> ''[7]'')) = Inr (JArr [JNum (Fin 7)]) \<and>
   loadEntries plain_host (Map.empty(STORAGE_KEY \<mapsto> ''[7]'')) \<noteq> Inr (JObj [])"
  by (simp add: loadEntries_def loadEntries_try_def typeof_def plain_host_def plain_parse_def)

text \<open>
  C7. Removing the date \<open>d\<close> after an upsert at \<open>d\<close> gives a store without the key \<open>d\<close>,
  whatever the patch; \<open>remove\<close> deletes that date and leaves every other key as it was.
  So does \<open>resetToday\<close> after \<open>updateEntry\<close>, and the result is what is stored.
\<close>

theorem remove_upsert:
  assumes "is_date d" and "distinct (map fst es)"
  shows "map_of (remove (upsert t es d patch) d) d = None \<and>
         (\<forall>d'. map_of (remove es d') d' = None \<and>
               (\<forall>k. k \<noteq> d' \<longrightarrow> map_of (remove es d') k = map_of es k)) \<and>
         (\<forall>h s. date s = d \<longrightarrow>
            map_of (entries (resetToday h (updateEntry h t patch s))) d = None \<and>
            storage (resetToday h (updateEntry h t patch s)) STORAGE_KEY =
              Some (JSON_stringify h (JObj (entries (resetToday h (updateEntry h t patch s))))))"
  using assms(2)
  by (simp add: remove_absent map_of_remove resetToday_def updateEntry_def Let_def saveEntries_def)

theorem remove_upsert_witness:
  "is_date ''2024-03-05'' \<and> distinct (map fst example_store) \<and>
   map_of (remove (upsert ''2024-03-06'' example_store ''2024-03-05'' [(''pulse'', JStr ''75'')])
             ''2024-03-05'') ''2024-03-05'' = None \<and>
   map_of (remove example_store ''2024-03-05'') ''2024-03-04'' = Some (example_entry ''2024-03-04'') \<and>
   map_of (entries (resetToday plain_host
       (updateEntry plain_host ''2024-03-06'' [(''pulse'', JStr ''75'')] example_app))) ''2024-03-05'' = None"
proof -
  have h1: "is_date ''2024-03-05''" by (simp add: is_date_def is_digit_def)
  have h2: "distinct (map fst example_store)" by (simp add: example_store_def)
  have d: "date example_app = ''2024-03-05''" by (simp add: example_app_def)
  have o: "map_of example_store ''2024-03-04'' = Some (example_entry ''2024-03-04'')"
    by (simp add: example_store_def)
  from remove_upsert [OF h1 h2, of "''2024-03-06''" "[(''pulse'', JStr ''75'')]"] h1 h2 d o
  show ?thesis by simp
qed

text \<open>
  C5. For every store whose entries carry a date string, on a host that orders those
  dates as the code units do: when the pulse, bpSys and bpDia of every entry convert to
  numbers (\<open>numeric_ok\<close>, which every text meets, numeric or not), \<open>daysData\<close> lists all the
  entries (a permutation of them) in ascending lexicographic order of their dates, and
  each of pulse, sys and dia is the parsed number, or null when the parse gives NaN (not
  numeric) or zero, as the empty text does. A text never makes \<open>Number\<close> fail. When some
  entry does not meet \<open>numeric_ok\<close>, \<open>daysData\<close> throws a TypeError.
\<close>

theorem daysData_sorted:
  assumes "list_all has_date (map snd es)" and "collates h (map date_of (map snd es))"
  shows "(list_all numeric_ok (map snd es) \<longrightarrow>
           (\<exists>arr ps. mset arr = mset (map snd es) \<and> sorted (map date_of arr) \<and>
              daysData h es = Inr ps \<and>
              list_all2 (\<lambda>e p. \<exists>pulse sys dia.
                  Number h (prop_of e ''pulse'') = Inr pulse \<and>
                  Number h (prop_of e ''bpSys'') = Inr sys \<and>
                  Number h (prop_of e ''bpDia'') = Inr dia \<and>
                  p = JObj [(''date'', JStr (drop 5 (date_of e))), (''pulse'', or_null pulse),
                            (''sys'', or_null sys), (''dia'', or_null dia)]) arr ps)) \<and>
         (\<not> list_all numeric_ok (map snd es) \<longrightarrow> daysData h es = Inl TypeError) \<and>
         (\<forall>n. or_null n = (if n = NaN \<or> n = Fin 0 then JNull else JNum n)) \<and>
         (\<forall>s. Number h (Some (JStr s)) = Inr (StringToNumber h s)) \<and>
         Number h None = Inr NaN \<and>
         (\<forall>e s. prop_of e ''pulse'' = Some (JStr s) \<and> prop_of e ''bpSys'' = Some (JStr s) \<and>
                 prop_of e ''bpDia'' = Some (JStr s) \<longrightarrow> numeric_ok e)"
proof -
  let ?arr = "sort_key date_of (map snd es)"
  have a: "list_all numeric_ok (map snd es) \<longrightarrow>
           (\<exists>arr ps. mset arr = mset (map snd es) \<and> sorted (map date_of arr) \<and>
              daysData h es = Inr ps \<and>
              list_all2 (\<lambda>e p. \<exists>pulse sys dia.
                  Number h (prop_of e ''pulse'') = Inr pulse \<and>
                  Number h (prop_of e ''bpSys'') = Inr sys \<and>
                  Number h (prop_of e ''bpDia'') = Inr dia \<and>
                  p = JObj [(''date'', JStr (drop 5 (date_of e))), (''pulse'', or_null pulse),
                            (''sys'', or_null sys), (''dia'', or_null dia)]) arr ps)"
  proof
    assume ok: "list_all numeric_ok (map snd es)"
    have 1: "daysData h es = Inr (map (point_of h) ?arr)"
      using assms ok by (rule daysData_dated)
    have 2: "mset ?arr = mset (map snd es)" by simp
    have 3: "sorted (map date_of ?arr)" by simp
    have "\<forall>e \<in> set ?arr. \<exists>pulse sys dia.
                  Number h (prop_of e ''pulse'') = Inr pulse \<and>
                  Number h (prop_of e ''bpSys'') = Inr sys \<and>
                  Number h (prop_of e ''bpDia'') = Inr dia \<and>
                  point_of h e =
                    JObj [(''date'', JStr (drop 5 (date_of e))), (''pulse'', or_null pulse),
                            (''sys'', or_null sys), (''dia'', or_null dia)]"
      using ok by (auto simp: list_all_iff numeric_ok_def Number_converts point_of_def)
    then have 4: "list_all2 (\<lambda>e p. \<exists>pulse sys dia.
                  Number h (prop_of e ''pulse'') = Inr pulse \<and>
                  Number h (prop_of e ''bpSys'') = Inr sys \<and>
                  Number h (prop_of e ''bpDia'') = Inr dia \<and>
                  p = JObj [(''date'', JStr (drop 5 (date_of e))), (''pulse'', or_null pulse),
                            (''sys'', or_null sys), (''dia'', or_null dia)])
              ?arr (map (point_of h) ?arr)"
      by (simp only: list_all2_map2 list_all2_same)
    from 1 2 3 4 show "\<exists>arr ps. mset arr = mset (map snd es) \<and> sorted (map date_of arr) \<and>
              daysData h es = Inr ps \<and>
              list_all2 (\<lambda>e p. \<exists>pulse sys dia.
                  Number h (prop_of e ''pulse'') = Inr pulse \<and>
                  Number h (prop_of e ''bpSys'') = Inr sys \<and>
                  Number h (prop_of e ''bpDia'') = Inr dia \<and>
                  p = JObj [(''date'', JStr (drop 5 (date_of e))), (''pulse'', or_null pulse),
                            (''sys'', or_null sys), (''dia'', or_null dia)]) arr ps"
      by (intro exI [of _ ?arr] exI [of _ "map (point_of h) ?arr"] conjI)
  qed
  have b: "\<not> list_all numeric_ok (map snd es) \<longrightarrow> daysData h es = Inl TypeError"
    using assms by (simp add: daysData_trap)
  have c: "\<forall>n. or_null n = (if n = NaN \<or> n = Fin 0 then JNull else JNum n)"
    by (simp add: or_null_def truthy_num_def)
  have d: "\<forall>s. Number h (Some (JStr s)) = Inr (StringToNumber h s)" by simp
  have e: "Number h None = Inr NaN" by simp
  have f: "\<forall>e s. prop_of e ''pulse'' = Some (JStr s) \<and> prop_of e ''bpSys'' = Some (JStr s) \<and>
                 prop_of e ''bpDia'' = Some (JStr s) \<longrightarrow> numeric_ok e"
    by (simp add: numeric_ok_def)
  from a b c d e f show ?thesis by (intro conjI)
qed

theorem daysData_sorted_witness:
  "list_all has_date (map snd sparse_store) \<and>
   collates plain_host (map date_of (map snd sparse_store)) \<and>
   list_all numeric_ok (map snd sparse_store) \<and>
   StringToNumber plain_host [] = Fin 0 \<and>
   daysData plain_host sparse_store =
     Inr [JObj [(''date'', JStr ''12-31''), (''pulse'', JNum (Fin 64)), (''sys'', JNull),
                (''dia'', JNull)],
          JObj [(''date'', JStr ''03-05''), (''pulse'', JNull), (''sys'', JNull),
                (''dia'', JNull)]] \<and>
   Number plain_host (Some (JStr [])) = Inr (Fin 0) \<and> or_null (Fin 0) = JNull \<and>
   list_all has_date (map snd trap_store) \<and>
   collates plain_host (map date_of (map snd trap_store)) \<and>
   \<not> list_all numeric_ok (map snd trap_store) \<and>
   daysData plain_host trap_store = Inl TypeError"
proof -
  have h1: "list_all has_date (map snd sparse_store)"
    by (simp add: sparse_store_def has_date_def)
  have h2: "collates plain_host (map date_of (map snd sparse_store))"
    by (simp add: sparse_store_def collates_def date_of_def plain_host_def plain_localeCompare_def)
  have h3: "StringToNumber plain_host [] = Fin 0"
    by (simp add: plain_host_def plain_StringToNumber_def digits_value_def)
  have h4: "list_all numeric_ok (map snd sparse_store)"
    by (simp add: sparse_store_def numeric_ok_def)
  have t1: "list_all has_date (map snd trap_store)"
    by (simp add: trap_store_def trap_entry_def has_date_def)
  have t2: "collates plain_host (map date_of (map snd trap_store))"
    by (simp add: trap_store_def trap_entry_def collates_def date_of_def plain_host_def
        plain_localeCompare_def)
  have t3: "\<not> list_all numeric_ok (map snd trap_store)"
    by (simp add: trap_store_def trap_entry_def numeric_ok_def)
  have ev: "daysData plain_host sparse_store =
     Inr [JObj [(''date'', JStr ''12-31''), (''pulse'', JNum (Fin 64)), (''sys'', JNull),
                (''dia'', JNull)],
          JObj [(''date'', JStr ''03-05''), (''pulse'', JNull), (''sys'', JNull),
                (''dia'', JNull)]]"
    by (simp add: daysData_def array_sort_def sort_by_def byDate_def point_def sparse_store_def
        plain_host_def plain_localeCompare_def plain_StringToNumber_def digits_value_def
        is_digit_def or_null_def truthy_num_def)
  from daysData_sorted [OF t1 t2] t3 have tr: "daysData plain_host trap_store = Inl TypeError"
    by simp
  have z: "or_null (Fin 0) = JNull" by (simp add: or_null_def truthy_num_def)
  from daysData_sorted [OF h1 h2] h1 h2 h3 h4 ev t1 t2 t3 tr z show ?thesis by simp
qed

text \<open>
  C6. The CSV export is the header of 15 named columns followed by one row of 15 cells
  per entry, in ascending order of date, so the number of rows is the number of entries
  plus 1. When every cell converts to a string (\<open>conv_opt\<close>, which undefined, null and
  every string, number and boolean meet) the text is the lines joined with newlines, a
  line being the texts of the cells of a row joined with commas; booleans print as true
  and false, the newlines of the notes become spaces, and a string cell stands as it is.
  When some cell does not convert, the export throws a TypeError.
\<close>

theorem exportCSV_rows:
  assumes "list_all has_date (map snd es)" and "collates h (map date_of (map snd es))"
    and "list_all notes_ok (map snd es)"
  shows "\<exists>arr body.
     mset arr = mset (map snd es) \<and> sorted (map date_of arr) \<and>
     csvRows h es = Inr (header # body) \<and>
     array_map (cell h) header =
       Inr [''date'', ''pulse'', ''bpSys'', ''bpDia'', ''dizziness'', ''syncope'', ''dyspnea'',
        ''edema'', ''bleeding'', ''fatigue'', ''meds_am_multaq'', ''meds_am_edoxaban'',
        ''meds_am_bisoprolol'', ''meds_pm_multaq'', ''notes''] \<and>
     length header = 15 \<and>
     length (header # body) = length es + 1 \<and>
     body = map (\<lambda>e.
         [prop_of e ''date'', prop_of e ''pulse'', prop_of e ''bpSys'', prop_of e ''bpDia'',
          prop_of e ''dizziness'', prop_of e ''syncope'', prop_of e ''dyspnea'',
          prop_of e ''edema'', prop_of e ''bleeding'', prop_of e ''fatigue'',
          path (prop_of e ''meds'') [''am'', ''multaq''],
          path (prop_of e ''meds'') [''am'', ''edoxaban''],
          path (prop_of e ''meds'') [''am'', ''bisoprolol''],
          path (prop_of e ''meds'') [''pm'', ''multaq''],
          Some (JStr (newlines_to_spaces (notes_of e)))]) arr \<and>
     (\<forall>r \<in> set body. length r = 15 \<and> (\<exists>s. cell h (r ! 14) = Inr s \<and> CHR 0x0A \<notin> set s)) \<and>
     (list_all (list_all conv_opt) body \<longrightarrow>
        (\<exists>lines.
           list_all2 (\<lambda>r l. \<exists>ss. list_all2 (\<lambda>c s. cell h c = Inr s) r ss \<and> l = join '','' ss)
             (header # body) lines \<and>
           exportCSV h es = Inr (join [CHR 0x0A] lines))) \<and>
     (\<not> list_all (list_all conv_opt) body \<longrightarrow> exportCSV h es = Inl TypeError) \<and>
     (\<forall>c. conv_opt c \<longleftrightarrow> \<not> isl (cell h c)) \<and>
     cell h (Some (JBool True)) = Inr ''true'' \<and> cell h (Some (JBool False)) = Inr ''false'' \<and>
     (\<forall>s. cell h (Some (JStr s)) = Inr s) \<and>
     (\<forall>s. newlines_to_spaces s = map (\<lambda>c. if c = CHR 0x0A then CHR '' '' else c) s)"
proof -
  let ?arr = "sort_key date_of (map snd es)"
  have rows: "csvRows h es = Inr (header # map row_of ?arr)"
    using assms by (rule csvRows_dated)
  have exp: "list_all (list_all conv_opt) (map row_of ?arr) \<longrightarrow>
        (\<exists>lines.
           list_all2 (\<lambda>r l. \<exists>ss. list_all2 (\<lambda>c s. cell h c = Inr s) r ss \<and> l = join '','' ss)
             (header # map row_of ?arr) lines \<and>
           exportCSV h es = Inr (join [CHR 0x0A] lines))"
    using exportCSV_outcome(1) [OF assms] by (rule impI)
  have trap: "\<not> list_all (list_all conv_opt) (map row_of ?arr) \<longrightarrow>
      exportCSV h es = Inl TypeError"
    using exportCSV_outcome(2) [OF assms] by (rule impI)
  have hd: "array_map (cell h) header =
       Inr [''date'', ''pulse'', ''bpSys'', ''bpDia'', ''dizziness'', ''syncope'', ''dyspnea'',
        ''edema'', ''bleeding'', ''fatigue'', ''meds_am_multaq'', ''meds_am_edoxaban'',
        ''meds_am_bisoprolol'', ''meds_pm_multaq'', ''notes'']"
    by (simp add: header_def)
  have len: "length header = 15" by (simp add: header_def)
  have each: "\<forall>r \<in> set (map row_of ?arr).
      length r = 15 \<and> (\<exists>s. cell h (r ! 14) = Inr s \<and> CHR 0x0A \<notin> set s)"
    by (auto simp: row_of_def no_newline)
  have body: "map row_of ?arr = map (\<lambda>e.
         [prop_of e ''date'', prop_of e ''pulse'', prop_of e ''bpSys'', prop_of e ''bpDia'',
          prop_of e ''dizziness'', prop_of e ''syncope'', prop_of e ''dyspnea'',
          prop_of e ''edema'', prop_of e ''bleeding'', prop_of e ''fatigue'',
          path (prop_of e ''meds'') [''am'', ''multaq''],
          path (prop_of e ''meds'') [''am'', ''edoxaban''],
          path (prop_of e ''meds'') [''am'', ''bisoprolol''],
          path (prop_of e ''meds'') [''pm'', ''multaq''],
          Some (JStr (newlines_to_spaces (notes_of e)))]) ?arr"
    by (simp add: row_of_def)
  have cnt: "length (header # map row_of ?arr) = length es + 1" by simp
  have perm: "mset ?arr = mset (map snd es)" by simp
  have srt: "sorted (map date_of ?arr)" by simp
  have cv: "\<forall>c. conv_opt c \<longleftrightarrow> \<not> isl (cell h c)" by (simp add: cell_converts)
  have c1: "cell h (Some (JBool True)) = Inr ''true''" by simp
  have c2: "cell h (Some (JBool False)) = Inr ''false''" by simp
  have c3: "\<forall>s. cell h (Some (JStr s)) = Inr s" by simp
  have c4: "\<forall>s. newlines_to_spaces s = map (\<lambda>c. if c = CHR 0x0A then CHR '' '' else c) s"
    by (simp add: newlines_to_spaces_def)
  show ?thesis
    by (intro exI [of _ ?arr] exI [of _ "map row_of ?arr"] conjI
        perm srt rows hd len cnt body each exp trap cv c1 c2 c3 c4)
qed

theorem exportCSV_rows_witness:
  "list_all has_date (map snd sparse_store) \<and>
   collates plain_host (map date_of (map snd sparse_store)) \<and>
   list_all notes_ok (map snd sparse_store) \<and>
   (\<exists>body. csvRows plain_host sparse_store = Inr (header # body) \<and>
      length (header # body) = 3 \<and> list_all (list_all conv_opt) body \<and>
      (\<exists>lines. length lines = 3 \<and>
         exportCSV plain_host sparse_store = Inr (join [CHR 0x0A] lines))) \<and>
   exportCSV plain_host sparse_store =
     Inr (''date,pulse,bpSys,bpDia,dizziness,syncope,dyspnea,edema,bleeding,fatigue,'' @
          ''meds_am_multaq,meds_am_edoxaban,meds_am_bisoprolol,meds_pm_multaq,notes'' @
          [CHR 0x0A] @ ''2023-12-31,64,,,,,,,,,,,,,'' @
          [CHR 0x0A] @ ''2024-03-05,abc,0,,true,,,,,,,,,,a b'')"
proof -
  have h1: "list_all has_date (map snd sparse_store)"
    by (simp add: sparse_store_def has_date_def)
  have h2: "collates plain_host (map date_of (map snd sparse_store))"
    by (simp add: sparse_store_def collates_def date_of_def plain_host_def plain_localeCompare_def)
  have h3: "list_all notes_ok (map snd sparse_store)"
    by (simp add: sparse_store_def notes_ok_def)
  have n: "NumberToString plain_host (Fin 64) = ''64''"
    by (simp add: plain_host_def plain_NumberToString_def show_nat.simps)
  have rs: "csvRows plain_host sparse_store =
      Inr [header,
           [Some (JStr ''2023-12-31''), Some (JNum (Fin 64)), None, None, None, None, None,
            None, None, None, None, None, None, None, Some (JStr [])],
           [Some (JStr ''2024-03-05''), Some (JStr ''abc''), Some (JStr ''0''), None,
            Some (JBool True), None, None, None, None, None, None, None, None, None,
            Some (JStr ''a b'')]]"
    by (simp add: csvRows_def csvRow_def array_sort_def sort_by_def byDate_def
        sparse_store_def notes_text_def newlines_to_spaces_def
        plain_localeCompare_def plain_host_def [THEN arg_cong, of localeCompare])
  have ev: "exportCSV plain_host sparse_store =
     Inr (''date,pulse,bpSys,bpDia,dizziness,syncope,dyspnea,edema,bleeding,fatigue,'' @
          ''meds_am_multaq,meds_am_edoxaban,meds_am_bisoprolol,meds_pm_multaq,notes'' @
          [CHR 0x0A] @ ''2023-12-31,64,,,,,,,,,,,,,'' @
          [CHR 0x0A] @ ''2024-03-05,abc,0,,true,,,,,,,,,,a b'')"
    by (simp add: exportCSV_def rs join_row_def header_def n)
  from exportCSV_rows [OF h1 h2 h3] obtain body where
    b1: "csvRows plain_host sparse_store = Inr (header # body)"
    and b2: "length (header # body) = length sparse_store + 1"
    and b3: "list_all (list_all conv_opt) body \<longrightarrow>
        (\<exists>lines.
           list_all2 (\<lambda>r l. \<exists>ss. list_all2 (\<lambda>c s. cell plain_host c = Inr s) r ss \<and>
                                 l = join '','' ss)
             (header # body) lines \<and>
           exportCSV plain_host sparse_store = Inr (join [CHR 0x0A] lines))"
    by blast
  from b1 rs have b4: "list_all (list_all conv_opt) body" by auto
  with b3 obtain lines where
    l1: "list_all2 (\<lambda>r l. \<exists>ss. list_all2 (\<lambda>c s. cell plain_host c = Inr s) r ss \<and>
                                 l = join '','' ss) (header # body) lines"
    and l2: "exportCSV plain_host sparse_store = Inr (join [CHR 0x0A] lines)"
    by blast
  from l1 have "length (header # body) = length lines" by (rule list_all2_lengthD)
  with b2 have l3: "length lines = 3" by (simp add: sparse_store_def)
  from b2 have b5: "length (header # body) = 3" by (simp add: sparse_store_def)
  from b1 b5 b4 l3 l2 have c: "\<exists>body. csvRows plain_host sparse_store = Inr (header # body) \<and>
      length (header # body) = 3 \<and> list_all (list_all conv_opt) body \<and>
      (\<exists>lines. length lines = 3 \<and>
         exportCSV plain_host sparse_store = Inr (join [CHR 0x0A] lines))"
    by blast
  from h1 h2 h3 c ev show ?thesis by (intro conjI)
qed

text \<open>
  C9. The date of an element of the series is the date of its entry from index 5 on
  (MM-DD for a YYYY-MM-DD date), for every store whose numeric fields convert to numbers
  (\<open>numeric_ok\<close>). The full date is lost: two entries that differ only in the first five
  characters of their dates give the same series.
\<close>

theorem daysData_date_suffix:
  assumes "list_all has_date (map snd es)" and "collates h (map date_of (map snd es))"
  shows "(list_all numeric_ok (map snd es) \<longrightarrow>
           (\<exists>ps. daysData h es = Inr ps \<and>
              map (\<lambda>p. prop_of p ''date'') ps =
                map (\<lambda>e. Some (JStr (drop 5 (date_of e)))) (sort_key date_of (map snd es)))) \<and>
         (\<forall>k1 k2 e1 e2.
            has_date e1 \<and> has_date e2 \<and> drop 5 (date_of e1) = drop 5 (date_of e2) \<and>
            prop_of e1 ''pulse'' = prop_of e2 ''pulse'' \<and>
            prop_of e1 ''bpSys'' = prop_of e2 ''bpSys'' \<and>
            prop_of e1 ''bpDia'' = prop_of e2 ''bpDia'' \<longrightarrow>
            daysData h [(k1, e1)] = daysData h [(k2, e2)])"
proof -
  have a: "list_all numeric_ok (map snd es) \<longrightarrow>
           (\<exists>ps. daysData h es = Inr ps \<and>
              map (\<lambda>p. prop_of p ''date'') ps =
                map (\<lambda>e. Some (JStr (drop 5 (date_of e)))) (sort_key date_of (map snd es)))"
    using daysData_dated [OF assms] by (simp add: point_of_def comp_def)
  have b: "\<And>k e. has_date e \<Longrightarrow>
      daysData h [(k, e)] =
        (case Number h (prop_of e ''pulse'') of
           Inl err \<Rightarrow> Inl err
         | Inr pulse \<Rightarrow>
        (case Number h (prop_of e ''bpSys'') of
           Inl err \<Rightarrow> Inl err
         | Inr sys \<Rightarrow>
        (case Number h (prop_of e ''bpDia'') of
           Inl err \<Rightarrow> Inl err
         | Inr dia \<Rightarrow>
             Inr [JObj [(''date'', JStr (drop 5 (date_of e))), (''pulse'', or_null pulse),
                        (''sys'', or_null sys), (''dia'', or_null dia)]])))"
    by (simp add: daysData_def array_sort_def point_def has_date_not_null has_date_prop
        split: sum.splits)
  have "\<forall>k1 k2 e1 e2.
            has_date e1 \<and> has_date e2 \<and> drop 5 (date_of e1) = drop 5 (date_of e2) \<and>
            prop_of e1 ''pulse'' = prop_of e2 ''pulse'' \<and>
            prop_of e1 ''bpSys'' = prop_of e2 ''bpSys'' \<and>
            prop_of e1 ''bpDia'' = prop_of e2 ''bpDia'' \<longrightarrow>
            daysData h [(k1, e1)] = daysData h [(k2, e2)]"
    by (auto simp: b split: sum.splits)
  with a show ?thesis by blast
qed

theorem daysData_date_suffix_witness:
  "list_all has_date (map snd example_store) \<and>
   collates plain_host (map date_of (map snd example_store)) \<and>
   list_all numeric_ok (map snd example_store) \<and>
   (\<exists>ps. daysData plain_host example_store = Inr ps \<and>
      map (\<lambda>p. prop_of p ''date'') ps = [Some (JStr ''03-04''), Some (JStr ''03-05'')]) \<and>
   daysData plain_host [(''2023-05-01'', example_entry ''2023-05-01'')] =
     daysData plain_host [(''2024-05-01'', example_entry ''2024-05-01'')] \<and>
   (\<exists>p. daysData plain_host [(''2023-05-01'', example_entry ''2023-05-01'')] = Inr [p] \<and>
        prop_of p ''date'' = Some (JStr ''05-01''))"
proof -
  have h1: "list_all has_date (map snd example_store)"
    by (simp add: example_store_def example_entry_def has_date_def)
  have h2: "collates plain_host (map date_of (map snd example_store))"
    by (simp add: example_store_def example_entry_def collates_def date_of_def plain_host_def
        plain_localeCompare_def)
  have h3: "list_all numeric_ok (map snd example_store)"
    by (simp add: example_store_def example_entry_def numeric_ok_def)
  have s: "sort_key date_of (map snd example_store) =
      [example_entry ''2024-03-04'', example_entry ''2024-03-05'']"
    by (simp add: example_store_def example_entry_def date_of_def)
  have dd: "date_of (example_entry ''2024-03-04'') = ''2024-03-04''"
    "date_of (example_entry ''2024-03-05'') = ''2024-03-05''"
    "date_of (example_entry ''2023-05-01'') = ''2023-05-01''"
    "date_of (example_entry ''2024-05-01'') = ''2024-05-01''"
    by (simp_all add: example_entry_def date_of_def)
  have hd: "has_date (example_entry ''2023-05-01'')" "has_date (example_entry ''2024-05-01'')"
    by (simp_all add: example_entry_def has_date_def)
  have p: "prop_of (example_entry ''2023-05-01'') ''pulse'' = prop_of (example_entry ''2024-05-01'') ''pulse''"
    "prop_of (example_entry ''2023-05-01'') ''bpSys'' = prop_of (example_entry ''2024-05-01'') ''bpSys''"
    "prop_of (example_entry ''2023-05-01'') ''bpDia'' = prop_of (example_entry ''2024-05-01'') ''bpDia''"
    by (simp_all add: example_entry_def)
  from daysData_date_suffix [OF h1 h2] h3 have
    a: "\<exists>ps. daysData plain_host example_store = Inr ps \<and>
            map (\<lambda>p. prop_of p ''date'') ps =
              map (\<lambda>e. Some (JStr (drop 5 (date_of e)))) (sort_key date_of (map snd example_store))"
    and b: "\<forall>k1 k2 e1 e2.
            has_date e1 \<and> has_date e2 \<and> drop 5 (date_of e1) = drop 5 (date_of e2) \<and>
            prop_of e1 ''pulse'' = prop_of e2 ''pulse'' \<and>
            prop_of e1 ''bpSys'' = prop_of e2 ''bpSys'' \<and>
            prop_of e1 ''bpDia'' = prop_of e2 ''bpDia'' \<longrightarrow>
            daysData plain_host [(k1, e1)] = daysData plain_host [(k2, e2)]"
    by blast+
  have c: "daysData plain_host [(''2023-05-01'', example_entry ''2023-05-01'')] =
     daysData plain_host [(''2024-05-01'', example_entry ''2024-05-01'')]"
    using b hd p by (simp add: dd)
  from a have a': "\<exists>ps. daysData plain_host example_store = Inr ps \<and>
      map (\<lambda>p. prop_of p ''date'') ps = [Some (JStr ''03-04''), Some (JStr ''03-05'')]"
    by (simp add: s dd)
  have d: "\<exists>p. daysData plain_host [(''2023-05-01'', example_entry ''2023-05-01'')] = Inr [p] \<and>
        prop_of p ''date'' = Some (JStr ''05-01'')"
    by (simp add: daysData_def array_sort_def point_def example_entry_def)
  from h1 h2 h3 a' c d show ?thesis by simp
qed



text \<open>
  C8. When the clock readings of one run of \<open>fillDemo\<close> all fall on the local day
  \<open>today\<close> (from 1970-01-28 on and before the year 9995), in a time zone where a local
  time and its time value are on the same local day, the entries after \<open>fillDemo\<close> have
  exactly 28 distinct keys, the dates of the 28 consecutive days that end today, oldest
  first; nothing of the prior store is left (the entries do not depend on it), and the
  new entries are what is stored.
\<close>

theorem fillDemo_dates:
  assumes "\<forall>i<28. local_day z (now z i) = today"
    and "\<forall>x. local_day z (UTC z x) = nat (x div msPerDay)"
    and "27 \<le> today" and "today < 2930950"
  shows "map fst (entries (fillDemo h z r t s)) = map iso_day [today - 27..<Suc today] \<and>
         length (entries (fillDemo h z r t s)) = 28 \<and>
         distinct (map fst (entries (fillDemo h z r t s))) \<and>
         last (map fst (entries (fillDemo h z r t s))) = iso_day today \<and>
         (\<forall>i<28. map_of (entries (fillDemo h z r t s)) (iso_day (today - i)) =
                   Some (demoEntry r t (iso_day (today - i)) i)) \<and>
         (\<forall>k. k \<notin> set (map iso_day [today - 27..<Suc today]) \<longrightarrow>
               map_of (entries (fillDemo h z r t s)) k = None) \<and>
         (\<forall>s'. entries (fillDemo h z r t s') = entries (fillDemo h z r t s)) \<and>
         storage (fillDemo h z r t s) STORAGE_KEY =
           Some (JSON_stringify h (JObj (entries (fillDemo h z r t s))))"
proof -
  have e: "\<And>s. entries (fillDemo h z r t s) = demo_pairs r t today 28"
    using assms by (rule fillDemo_entries)
  have le: "28 \<le> Suc today" using assms(3) by simp
  have keys: "map fst (demo_pairs r t today 28) = map iso_day [today - 27..<Suc today]"
    using demo_keys [OF le, of r t] by simp
  have len: "length (demo_pairs r t today 28) = 28" by (simp add: demo_pairs_def)
  have dist: "distinct (map fst (demo_pairs r t today 28))"
    using le assms(4) by (rule distinct_demo_keys)
  have lst: "last (map fst (demo_pairs r t today 28)) = iso_day today"
    by (simp add: keys)
  have look: "\<forall>i<28. map_of (demo_pairs r t today 28) (iso_day (today - i)) =
                   Some (demoEntry r t (iso_day (today - i)) i)"
    using demo_lookup [OF le assms(4)] by blast
  have none: "\<forall>k. k \<notin> set (map iso_day [today - 27..<Suc today]) \<longrightarrow>
               map_of (demo_pairs r t today 28) k = None"
    using keys by (metis map_of_eq_None_iff set_map)
  have sto: "storage (fillDemo h z r t s) STORAGE_KEY =
           Some (JSON_stringify h (JObj (entries (fillDemo h z r t s))))"
    by (simp add: fillDemo_def Let_def saveEntries_def)
  show ?thesis
    using keys len dist lst look none sto by (simp only: e) simp
qed

theorem fillDemo_dates_witness:
  "list_all (\<lambda>i. local_day seoul (now seoul i) = 19787) [0..<28] \<and>
   (\<forall>x. local_day seoul (UTC seoul x) = nat (x div msPerDay)) \<and>
   27 \<le> (19787 :: nat) \<and> (19787 :: nat) < 2930950 \<and>
   iso_day 19787 = ''2024-03-05'' \<and> iso_day (19787 - 27) = ''2024-02-07'' \<and>
   length (entries (fillDemo plain_host seoul flat_draws ''2024-03-05'' example_app)) = 28 \<and>
   last (map fst (entries (fillDemo plain_host seoul flat_draws ''2024-03-05'' example_app)))
     = ''2024-03-05'' \<and>
   map_of (entries (fillDemo plain_host seoul flat_draws ''2024-03-05'' example_app)) ''2024-03-04''
     = Some (demoEntry flat_draws ''2024-03-05'' ''2024-03-04'' 1)"
proof -
  have h1: "\<forall>i<28. local_day seoul (now seoul i) = 19787"
    by (simp add: local_day_def LocalTime_def seoul_def msPerDay_def)
  have h2: "\<forall>x. local_day seoul (UTC seoul x) = nat (x div msPerDay)"
    by (simp add: local_day_def LocalTime_def seoul_def)
  have h3: "27 \<le> (19787 :: nat)" and h4: "(19787 :: nat) < 2930950" by simp_all
  have d0: "iso_day 19787 = ''2024-03-05''" by (rule iso_day_19787)
  have d1: "iso_day 19786 = ''2024-03-04''" by (rule iso_day_19786)
  have d27: "iso_day (19787 - 27) = ''2024-02-07''" by (simp add: iso_day_19760)
  have i1: "(19787 :: nat) - 1 = 19786" by simp
  from fillDemo_dates [OF h1 h2 h3 h4, of plain_host flat_draws "''2024-03-05''" example_app]
  have a: "length (entries (fillDemo plain_host seoul flat_draws ''2024-03-05'' example_app)) = 28"
    and b: "last (map fst (entries (fillDemo plain_host seoul flat_draws ''2024-03-05'' example_app)))
      = iso_day 19787"
    and c: "\<forall>i<28. map_of (entries (fillDemo plain_host seoul flat_draws ''2024-03-05'' example_app))
        (iso_day (19787 - i)) = Some (demoEntry flat_draws ''2024-03-05'' (iso_day (19787 - i)) i)"
    by blast+
  have "(1 :: nat) < 28" by simp
  with c have "map_of (entries (fillDemo plain_host seoul flat_draws ''2024-03-05'' example_app))
        (iso_day (19787 - 1)) = Some (demoEntry flat_draws ''2024-03-05'' (iso_day (19787 - 1)) 1)"
    by blast
  then have c1: "map_of (entries (fillDemo plain_host seoul flat_draws ''2024-03-05'' example_app))
      ''2024-03-04'' = Some (demoEntry flat_draws ''2024-03-05'' ''2024-03-04'' 1)"
    by (simp only: i1 d1)
  have h1': "list_all (\<lambda>i. local_day seoul (now seoul i) = 19787) [0..<28]"
    using h1 by (simp add: list_all_iff)
  from h1' h2 h3 h4 d0 d27 a b c1 show ?thesis by (simp only: simp_thms)
qed

end
